theory Spec2Isabelle
  imports Main "HOL-Library.AList"
begin

section \<open>Data model\<close>

text \<open>
  The real-time collaboration core of DynamicContract: the in-memory store
  (\<^verbatim>\<open>server/storage.ts\<close>, class \<^verbatim>\<open>MemStorage\<close>), the WebSocket router inside
  \<^verbatim>\<open>registerRoutes\<close> and the client-side \<^verbatim>\<open>WebSocketManager\<close>.

  Numbers are \<^typ>\<open>int\<close> (identifiers are database serials), a value that may be
  \<^verbatim>\<open>undefined\<close> or \<^verbatim>\<open>null\<close> is an \<^typ>\<open>'a option\<close>, a \<^verbatim>\<open>Date\<close> is a
  \<^typ>\<open>nat\<close> (milliseconds), and the two sources of nondeterminism, \<^verbatim>\<open>new Date()\<close>
  and \<^verbatim>\<open>crypto.randomUUID()\<close>, are arguments supplied by the caller.
\<close>

record position =
  line :: int
  character :: int

text \<open>\<^verbatim>\<open>InsertPresenceData\<close> and \<^verbatim>\<open>PresenceData\<close> of the schema; the latter adds the
  columns \<^verbatim>\<open>id\<close> and \<^verbatim>\<open>lastSeen\<close> that the insert schema omits.\<close>

record InsertPresenceData =
  userId :: int
  contractId :: int
  position :: "position option"
  isActive :: "bool option"

record PresenceData = InsertPresenceData +
  presence_id :: string
  lastSeen :: nat

text \<open>\<^verbatim>\<open>Contract\<close> of the schema.\<close>

record Contract =
  contract_id :: int
  title :: string
  content :: "string option"
  projectId :: int
  createdById :: int
  version :: string
  status :: string
  riskScore :: "string option"
  completeness :: "int option"
  wordCount :: "int option"
  readingLevel :: "string option"
  createdAt :: nat
  updatedAt :: nat

text \<open>
  The part of \<^verbatim>\<open>MemStorage\<close> the router touches. \<^verbatim>\<open>contracts\<close> is only read and
  written by key. \<^verbatim>\<open>presenceData\<close> is a \<^verbatim>\<open>Map<string, PresenceData>\<close> that is
  enumerated with \<^verbatim>\<open>values()\<close>, so it is an association list in insertion order:
  \<^verbatim>\<open>Map.set\<close> is \<^const>\<open>AList.update\<close> (an existing key keeps its place, a new
  key goes to the end) and \<^verbatim>\<open>Map.get\<close> is \<^const>\<open>map_of\<close>.
\<close>

record MemStorage =
  contracts :: "int \<rightharpoonup> Contract"
  presenceData :: "(string \<times> PresenceData) list"

section \<open>The in-memory store\<close>

text \<open>Rendering of an integer by a template literal (decimal, a leading minus sign).\<close>

definition digit_char :: "nat \<Rightarrow> char" where
  "digit_char d = char_of (48 + d)"

fun digits_of :: "nat \<Rightarrow> string" where
  "digits_of n = (if n < 10 then [digit_char n] else digits_of (n div 10) @ [digit_char (n mod 10)])"

declare digits_of.simps [simp del]

definition number_to_string :: "int \<Rightarrow> string" where
  "number_to_string i = (if i < 0 then CHR ''-'' # digits_of (nat (- i)) else digits_of (nat i))"

text \<open>The map key \<^verbatim>\<open>`${userId}-${contractId}`\<close>.\<close>

definition presence_key :: "int \<Rightarrow> int \<Rightarrow> string" where
  "presence_key u c = number_to_string u @ ''-'' @ number_to_string c"

text \<open>
  \<^verbatim>\<open>getPresenceByContract\<close>: the values in insertion order, filtered by
  \<^verbatim>\<open>presence.contractId === contractId && presence.isActive\<close>.
\<close>

definition getPresenceByContract :: "int \<Rightarrow> MemStorage \<Rightarrow> PresenceData list" where
  "getPresenceByContract cid st =
     filter (\<lambda>presence. contractId presence = cid \<and> isActive presence = Some True)
       (map snd (presenceData st))"

text \<open>
  \<^verbatim>\<open>upsertPresence\<close>: the record is the inserted fields, the id of the existing
  record under the key (\<^verbatim>\<open>existing?.id || crypto.randomUUID()\<close>: an empty id is
  falsy) and \<^verbatim>\<open>lastSeen: new Date()\<close>. Returns the record and the new store.
\<close>

definition upsertPresence ::
  "InsertPresenceData \<Rightarrow> nat \<Rightarrow> string \<Rightarrow> MemStorage \<Rightarrow> PresenceData \<times> MemStorage" where
  "upsertPresence insertPresence now uuid st =
     (let key = presence_key (userId insertPresence) (contractId insertPresence);
          existing = map_of (presenceData st) key;
          presence = \<lparr> userId = userId insertPresence,
                       contractId = contractId insertPresence,
                       position = position insertPresence,
                       isActive = isActive insertPresence,
                       presence_id = (case existing of
                                        None \<Rightarrow> uuid
                                      | Some e \<Rightarrow> if presence_id e \<noteq> [] then presence_id e else uuid),
                       lastSeen = now \<rparr>
      in (presence, st\<lparr> presenceData := AList.update key presence (presenceData st) \<rparr>))"

text \<open>
  \<^verbatim>\<open>removePresence\<close>: when a record is stored under the key its \<^verbatim>\<open>isActive\<close> is set
  to false and it is stored again; the result says whether there was one.
\<close>

definition removePresence :: "int \<Rightarrow> int \<Rightarrow> MemStorage \<Rightarrow> bool \<times> MemStorage" where
  "removePresence u c st =
     (let key = presence_key u c
      in case map_of (presenceData st) key of
           Some presence \<Rightarrow>
             (True, st\<lparr> presenceData :=
                          AList.update key (presence\<lparr> isActive := Some False \<rparr>) (presenceData st) \<rparr>)
         | None \<Rightarrow> (False, st))"

text \<open>
  \<^verbatim>\<open>updateContract\<close>, for the \<^verbatim>\<open>updates\<close> object the router passes, which has
  exactly the keys \<^verbatim>\<open>content\<close> and \<^verbatim>\<open>wordCount\<close>:
  \<^verbatim>\<open>{ ...contract, ...updates, updatedAt: new Date() }\<close>.
  An unknown id returns \<^verbatim>\<open>undefined\<close> and stores nothing.
\<close>

definition updateContract ::
  "int \<Rightarrow> string option \<Rightarrow> int \<Rightarrow> nat \<Rightarrow> MemStorage \<Rightarrow> Contract option \<times> MemStorage" where
  "updateContract i upd_content upd_wordCount now st =
     (case contracts st i of
        None \<Rightarrow> (None, st)
      | Some contract \<Rightarrow>
          (let updatedContract = contract\<lparr> content := upd_content,
                                           wordCount := Some upd_wordCount,
                                           updatedAt := now \<rparr>
           in (Some updatedContract, st\<lparr> contracts := (contracts st)(i \<mapsto> updatedContract) \<rparr>)))"

text \<open>
  Every record of the presence map sits under the key of its own user and
  contract, and no key occurs twice. The empty map has the property and both
  writers keep it.
\<close>

definition presence_inv :: "MemStorage \<Rightarrow> bool" where
  "presence_inv st \<longleftrightarrow>
     distinct (map fst (presenceData st)) \<and>
     (\<forall>(k, r) \<in> set (presenceData st). k = presence_key (userId r) (contractId r))"

section \<open>The WebSocket router\<close>

text \<open>
  A parsed inbound message. The handler reads only these properties; a property
  that is absent (or \<^verbatim>\<open>null\<close>) is \<^const>\<open>None\<close>.
\<close>

record message =
  msg_type :: string
  msg_userId :: "int option"
  msg_contractId :: "int option"
  msg_position :: "position option"
  msg_content :: "string option"
  msg_wordCount :: "int option"

text \<open>
  The objects the server sends, one constructor per object literal of the source:
  \<^verbatim>\<open>{type:'presence_update', userId, position, action}\<close>,
  \<^verbatim>\<open>{type:'cursor_update', userId, position}\<close>,
  \<^verbatim>\<open>{type:'content_update', content, userId, timestamp}\<close> and
  \<^verbatim>\<open>{type:'error', message}\<close>. A property whose value is \<^verbatim>\<open>undefined\<close> is
  dropped by \<^verbatim>\<open>JSON.stringify\<close>: it is \<^const>\<open>None\<close>.
\<close>

datatype action = joined | left

datatype outgoing =
    presence_update_msg "int option" "position option" action
  | cursor_update_msg "int option" "position option"
  | content_update_msg "string option" "int option" nat
  | error_msg string

datatype ReadyState = CONNECTING | OPEN | CLOSING | CLOSED

type_synonym WebSocket = nat

text \<open>The variables \<^verbatim>\<open>userId\<close> and \<^verbatim>\<open>contractId\<close> in the closure of one connection.\<close>

record connection_vars =
  conn_userId :: "int option"
  conn_contractId :: "int option"

text \<open>
  The state of the server: the map \<^verbatim>\<open>clients\<close> (a \<^verbatim>\<open>Set<WebSocket>\<close> is a list
  without repetition, in insertion order), the closure variables and the
  \<^verbatim>\<open>readyState\<close> of every connection, the store, and for every connection the
  messages passed to its \<^verbatim>\<open>send\<close>.
\<close>

record Server =
  clients :: "int \<rightharpoonup> WebSocket list"
  vars :: "WebSocket \<Rightarrow> connection_vars"
  readyState :: "WebSocket \<Rightarrow> ReadyState"
  storage :: MemStorage
  sent :: "WebSocket \<Rightarrow> outgoing list"

text \<open>Truthiness of an optional number: \<^verbatim>\<open>undefined\<close> and \<^verbatim>\<open>0\<close> are falsy.\<close>

definition truthy :: "int option \<Rightarrow> bool" where
  "truthy x = (case x of None \<Rightarrow> False | Some n \<Rightarrow> n \<noteq> 0)"

text \<open>\<^verbatim>\<open>Set.add\<close> and \<^verbatim>\<open>Set.delete\<close>.\<close>

definition set_add :: "'a \<Rightarrow> 'a list \<Rightarrow> 'a list" where
  "set_add x xs = (if x \<in> set xs then xs else xs @ [x])"

definition set_delete :: "'a \<Rightarrow> 'a list \<Rightarrow> 'a list" where
  "set_delete x xs = removeAll x xs"

definition socket_send :: "WebSocket \<Rightarrow> outgoing \<Rightarrow> Server \<Rightarrow> Server" where
  "socket_send client m s = s\<lparr> sent := (sent s)(client := sent s client @ [m]) \<rparr>"

text \<open>
  \<^verbatim>\<open>broadcastToContract\<close>: the \<^verbatim>\<open>forEach\<close> over the set of the contract, sending to
  every client that is not \<^verbatim>\<open>excludeWs\<close> and whose \<^verbatim>\<open>readyState\<close> is \<^verbatim>\<open>OPEN\<close>.
  The first argument is what the variable \<^verbatim>\<open>contractId\<close> holds when the call is made;
  for \<^verbatim>\<open>undefined\<close>, \<^verbatim>\<open>clients.get\<close> finds nothing.
\<close>

definition broadcast_one :: "outgoing \<Rightarrow> WebSocket option \<Rightarrow> WebSocket \<Rightarrow> Server \<Rightarrow> Server" where
  "broadcast_one m excludeWs client s =
     (if Some client \<noteq> excludeWs \<and> readyState s client = OPEN then socket_send client m s else s)"

definition broadcastToContract ::
  "int option \<Rightarrow> outgoing \<Rightarrow> WebSocket option \<Rightarrow> Server \<Rightarrow> Server" where
  "broadcastToContract cid m excludeWs s =
     (case cid of
        None \<Rightarrow> s
      | Some c \<Rightarrow>
          (case clients s c of
             None \<Rightarrow> s
           | Some contractClients \<Rightarrow> fold (broadcast_one m excludeWs) contractClients s))"

text \<open>
  Both handlers are \<^verbatim>\<open>async\<close>. A handler runs synchronously up to its \<^verbatim>\<open>await\<close>: the
  call of the store method is complete by then, since the methods of \<^verbatim>\<open>MemStorage\<close>
  have no \<^verbatim>\<open>await\<close> of their own. What follows the \<^verbatim>\<open>await\<close> runs later, as a
  microtask, and reads the variables \<^verbatim>\<open>userId\<close> and \<^verbatim>\<open>contractId\<close> of the connection
  as they are then. A continuation is the part of a handler after its \<^verbatim>\<open>await\<close>,
  with what it has captured: the connection, the message, and for a content change
  the reading of the clock (\<^verbatim>\<open>new Date()\<close>) it will take.
\<close>

datatype continuation =
    join_rest WebSocket message
  | cursor_move_rest WebSocket message
  | content_change_rest WebSocket message nat
  | close_rest WebSocket

text \<open>
  The parts after the \<^verbatim>\<open>await\<close>: the three broadcasts of the message handler, which
  exclude the sender, and for the close handler the removal from the subscription
  set (the entry is deleted when the set becomes empty) followed by the broadcast
  without \<^verbatim>\<open>excludeWs\<close>.
\<close>

fun resume :: "continuation \<Rightarrow> Server \<Rightarrow> Server" where
  "resume (join_rest w m) s =
     broadcastToContract (conn_contractId (vars s w))
       (presence_update_msg (conn_userId (vars s w)) (msg_position m) joined) (Some w) s"
| "resume (cursor_move_rest w m) s =
     broadcastToContract (conn_contractId (vars s w))
       (cursor_update_msg (conn_userId (vars s w)) (msg_position m)) (Some w) s"
| "resume (content_change_rest w m later) s =
     broadcastToContract (conn_contractId (vars s w))
       (content_update_msg (msg_content m) (conn_userId (vars s w)) later) (Some w) s"
| "resume (close_rest w) s =
     (let s2 = (case conn_contractId (vars s w) of
                  None \<Rightarrow> s
                | Some c \<Rightarrow>
                    (case clients s c of
                       None \<Rightarrow> s
                     | Some contractClients \<Rightarrow>
                         (let cc = set_delete w contractClients
                          in if length cc = 0
                             then s\<lparr> clients := (clients s)(c := None) \<rparr>
                             else s\<lparr> clients := (clients s)(c \<mapsto> cc) \<rparr>)))
      in broadcastToContract (conn_contractId (vars s2 w))
           (presence_update_msg (conn_userId (vars s2 w)) None left) None s2)"

text \<open>
  The \<^verbatim>\<open>join\<close> case up to its \<^verbatim>\<open>await\<close>: both variables are assigned first, then the
  guard \<^verbatim>\<open>if (!userId || !contractId) break\<close>, then registration and the presence
  upsert. The result is the new state and the continuation, if the guard passed.
\<close>

definition join_case ::
  "WebSocket \<Rightarrow> message \<Rightarrow> nat \<Rightarrow> string \<Rightarrow> Server \<Rightarrow> Server \<times> continuation list" where
  "join_case w m now uuid s =
     (let s1 = s\<lparr> vars := (vars s)(w := \<lparr> conn_userId = msg_userId m,
                                             conn_contractId = msg_contractId m \<rparr>) \<rparr>
      in case (msg_userId m, msg_contractId m) of
           (Some u, Some c) \<Rightarrow>
             if u = 0 \<or> c = 0 then (s1, [])
             else
               (let s2 = s1\<lparr> clients := (clients s1)(c \<mapsto>
                                set_add w (case clients s1 c of None \<Rightarrow> [] | Some cc \<Rightarrow> cc)) \<rparr>;
                    s3 = s2\<lparr> storage := snd (upsertPresence
                                \<lparr> userId = u, contractId = c, position = msg_position m,
                                  isActive = Some True \<rparr> now uuid (storage s2)) \<rparr>
                in (s3, [join_rest w m]))
         | _ \<Rightarrow> (s1, []))"

text \<open>The \<^verbatim>\<open>cursor_move\<close> case up to its \<^verbatim>\<open>await\<close>, guarded by \<^verbatim>\<open>if (userId && contractId)\<close>.\<close>

definition cursor_move_case ::
  "WebSocket \<Rightarrow> message \<Rightarrow> nat \<Rightarrow> string \<Rightarrow> Server \<Rightarrow> Server \<times> continuation list" where
  "cursor_move_case w m now uuid s =
     (case (conn_userId (vars s w), conn_contractId (vars s w)) of
        (Some u, Some c) \<Rightarrow>
          if u = 0 \<or> c = 0 then (s, [])
          else
            (s\<lparr> storage := snd (upsertPresence
                   \<lparr> userId = u, contractId = c, position = msg_position m,
                     isActive = Some True \<rparr> now uuid (storage s)) \<rparr>,
             [cursor_move_rest w m])
      | _ \<Rightarrow> (s, []))"

text \<open>
  The \<^verbatim>\<open>content_change\<close> case up to its \<^verbatim>\<open>await\<close>, guarded by \<^verbatim>\<open>if (contractId)\<close> only;
  the stored word count is \<^verbatim>\<open>message.wordCount || 0\<close>. The clock is read twice: by
  \<^verbatim>\<open>updateContract\<close> now, and for the \<^verbatim>\<open>timestamp\<close> of the broadcast when the
  continuation runs.
\<close>

definition content_change_case ::
  "WebSocket \<Rightarrow> message \<Rightarrow> nat \<Rightarrow> nat \<Rightarrow> Server \<Rightarrow> Server \<times> continuation list" where
  "content_change_case w m now later s =
     (case conn_contractId (vars s w) of
        Some c \<Rightarrow>
          if c = 0 then (s, [])
          else
            (s\<lparr> storage := snd (updateContract c (msg_content m)
                   (case msg_wordCount m of None \<Rightarrow> 0 | Some n \<Rightarrow> n) now (storage s)) \<rparr>,
             [content_change_rest w m later])
      | None \<Rightarrow> (s, []))"

text \<open>
  One frame as the server receives it: the payload, which is \<^const>\<open>None\<close> when
  \<^verbatim>\<open>JSON.parse\<close> (or reading \<^verbatim>\<open>message.type\<close>) throws, the reading of the clock and
  the UUID drawn while the handler runs up to its \<^verbatim>\<open>await\<close>, and the reading of the
  clock when its continuation runs.
\<close>

record frame =
  frame_data :: "message option"
  frame_now :: nat
  frame_uuid :: string
  frame_later :: nat

text \<open>
  The \<^verbatim>\<open>message\<close> handler up to its \<^verbatim>\<open>await\<close>. For an unparseable payload the
  \<^verbatim>\<open>catch\<close> replies to the sender at once. An unknown type matches no case.
\<close>

definition message_handler :: "WebSocket \<Rightarrow> frame \<Rightarrow> Server \<Rightarrow> Server \<times> continuation list" where
  "message_handler w f s =
     (case frame_data f of
        None \<Rightarrow> (socket_send w (error_msg ''Invalid message format'') s, [])
      | Some m \<Rightarrow>
          if msg_type m = ''join'' then join_case w m (frame_now f) (frame_uuid f) s
          else if msg_type m = ''cursor_move'' then cursor_move_case w m (frame_now f) (frame_uuid f) s
          else if msg_type m = ''content_change''
            then content_change_case w m (frame_now f) (frame_later f) s
          else (s, []))"

text \<open>
  The \<^verbatim>\<open>close\<close> handler up to its \<^verbatim>\<open>await\<close>; the socket is \<^verbatim>\<open>CLOSED\<close> when the event is
  emitted.
\<close>

definition close_handler :: "WebSocket \<Rightarrow> Server \<Rightarrow> Server \<times> continuation list" where
  "close_handler w s =
     (let s0 = s\<lparr> readyState := (readyState s)(w := CLOSED) \<rparr>
      in case (conn_userId (vars s0 w), conn_contractId (vars s0 w)) of
           (Some u, Some c) \<Rightarrow>
             if u = 0 \<or> c = 0 then (s0, [])
             else (s0\<lparr> storage := snd (removePresence u c (storage s0)) \<rparr>, [close_rest w])
         | _ \<Rightarrow> (s0, []))"

text \<open>
  The frames of one connection that arrive in one chunk of network data are
  emitted in one synchronous loop: every handler runs up to its \<^verbatim>\<open>await\<close>, in order,
  before the first continuation runs.
\<close>

fun handle_frames :: "WebSocket \<Rightarrow> frame list \<Rightarrow> Server \<Rightarrow> Server \<times> continuation list" where
  "handle_frames w [] s = (s, [])"
| "handle_frames w (f # fs) s =
     (case message_handler w f s of
        (s1, q1) \<Rightarrow> (case handle_frames w fs s1 of (s2, q2) \<Rightarrow> (s2, q1 @ q2)))"

text \<open>
  Events of the server: a chunk of frames of one connection, or the close of a
  connection. The continuations an event leaves behind run, in order, before the
  next event is taken. A run starts from the state after start-up: no subscription,
  every connection accepted (\<^verbatim>\<open>OPEN\<close>) with both variables undefined, nothing sent.
\<close>

datatype event =
    Frames WebSocket "frame list"
  | Close WebSocket

fun step :: "event \<Rightarrow> Server \<Rightarrow> Server" where
  "step (Frames w fs) s = (case handle_frames w fs s of (s1, q) \<Rightarrow> fold resume q s1)"
| "step (Close w) s = (case close_handler w s of (s1, q) \<Rightarrow> fold resume q s1)"

definition init :: "MemStorage \<Rightarrow> Server" where
  "init st = \<lparr> clients = Map.empty,
               vars = (\<lambda>_. \<lparr> conn_userId = None, conn_contractId = None \<rparr>),
               readyState = (\<lambda>_. OPEN),
               storage = st,
               sent = (\<lambda>_. []) \<rparr>"

definition run :: "event list \<Rightarrow> Server \<Rightarrow> Server" where
  "run evs s = fold step evs s"

text \<open>A chunk that holds a single frame, and the handling of such a chunk.\<close>

definition Message :: "WebSocket \<Rightarrow> message option \<Rightarrow> nat \<Rightarrow> string \<Rightarrow> nat \<Rightarrow> event" where
  "Message w data now uuid later =
     Frames w [\<lparr> frame_data = data, frame_now = now, frame_uuid = uuid, frame_later = later \<rparr>]"

definition on_message ::
  "WebSocket \<Rightarrow> message option \<Rightarrow> nat \<Rightarrow> string \<Rightarrow> nat \<Rightarrow> Server \<Rightarrow> Server" where
  "on_message w data now uuid later s = step (Message w data now uuid later) s"

definition on_close :: "WebSocket \<Rightarrow> Server \<Rightarrow> Server" where
  "on_close w s = step (Close w) s"

text \<open>Membership of a connection in the subscription set of a document.\<close>

definition subscribed :: "Server \<Rightarrow> WebSocket \<Rightarrow> int \<Rightarrow> bool" where
  "subscribed s w d = (case clients s d of None \<Rightarrow> False | Some cc \<Rightarrow> w \<in> set cc)"

text \<open>The documents named by the join frames of a connection that pass the guard.\<close>

definition frame_joined_docs :: "frame \<Rightarrow> int list" where
  "frame_joined_docs f =
     (case frame_data f of
        None \<Rightarrow> []
      | Some m \<Rightarrow>
          if msg_type m = ''join'' \<and> truthy (msg_userId m) \<and> truthy (msg_contractId m)
          then (case msg_contractId m of Some c \<Rightarrow> [c] | None \<Rightarrow> []) else [])"

fun joined_docs :: "WebSocket \<Rightarrow> event list \<Rightarrow> int list" where
  "joined_docs w [] = []"
| "joined_docs w (Frames w' fs # evs) =
     (if w' = w then concat (map frame_joined_docs fs) else []) @ joined_docs w evs"
| "joined_docs w (Close w' # evs) = joined_docs w evs"

text \<open>A frame whose payload is a join, accepted or not: the frames that assign the
  variables of the connection.\<close>

definition is_join :: "frame \<Rightarrow> bool" where
  "is_join f = (case frame_data f of None \<Rightarrow> False | Some m \<Rightarrow> msg_type m = ''join'')"

text \<open>
  The object a continuation of the message handler sends, given the values of the
  variables of its connection when it runs.
\<close>

fun continuation_message :: "connection_vars \<Rightarrow> continuation \<Rightarrow> outgoing" where
  "continuation_message v (join_rest w m) =
     presence_update_msg (conn_userId v) (msg_position m) joined"
| "continuation_message v (cursor_move_rest w m) =
     cursor_update_msg (conn_userId v) (msg_position m)"
| "continuation_message v (content_change_rest w m later) =
     content_update_msg (msg_content m) (conn_userId v) later"
| "continuation_message v (close_rest w) =
     presence_update_msg (conn_userId v) None left"

text \<open>The continuations that the message handler of a connection leaves behind.\<close>

fun message_rest_of :: "WebSocket \<Rightarrow> continuation \<Rightarrow> bool" where
  "message_rest_of w (join_rest w' m) = (w' = w)"
| "message_rest_of w (cursor_move_rest w' m) = (w' = w)"
| "message_rest_of w (content_change_rest w' m later) = (w' = w)"
| "message_rest_of w (close_rest w') = False"

text \<open>
  The invariant of the subscription map that the \<^verbatim>\<open>Set\<close> type and the handlers
  maintain: a stored set has no repetition and is not empty.
\<close>

definition clients_inv :: "Server \<Rightarrow> bool" where
  "clients_inv s \<longleftrightarrow> (\<forall>d cc. clients s d = Some cc \<longrightarrow> distinct cc \<and> cc \<noteq> [])"

section \<open>The client-side channel manager\<close>

text \<open>
  A browser socket created by \<^verbatim>\<open>connect\<close>: its \<^verbatim>\<open>readyState\<close> and the arguments
  \<^verbatim>\<open>userId\<close>, \<^verbatim>\<open>contractId\<close> captured by its \<^verbatim>\<open>onopen\<close> and \<^verbatim>\<open>onclose\<close> handlers.
\<close>

record socket =
  sock_readyState :: ReadyState
  sock_userId :: int
  sock_contractId :: int

text \<open>
  \<^verbatim>\<open>WebSocketManager\<close> with the part of the browser it acts on: the sockets created
  so far (a handle is an index), the pending \<^verbatim>\<open>setTimeout\<close> callbacks (delay and
  the captured arguments of \<^verbatim>\<open>connect\<close>) and the messages handed to a socket's
  \<^verbatim>\<open>send\<close>, in order. The \<^verbatim>\<open>listeners\<close> map plays no part in connecting.
\<close>

record Client =
  ws :: "nat option"
  reconnectAttempts :: nat
  maxReconnectAttempts :: nat
  reconnectDelay :: nat
  sockets :: "socket list"
  timers :: "(nat \<times> int \<times> int) list"
  wire :: "(nat \<times> message) list"

definition new_WebSocketManager :: Client where
  "new_WebSocketManager =
     \<lparr> ws = None, reconnectAttempts = 0, maxReconnectAttempts = 5, reconnectDelay = 1000,
       sockets = [], timers = [], wire = [] \<rparr>"

definition set_readyState :: "nat \<Rightarrow> ReadyState \<Rightarrow> Client \<Rightarrow> Client" where
  "set_readyState i r c = c\<lparr> sockets := (sockets c)[i := (sockets c ! i)\<lparr> sock_readyState := r \<rparr>] \<rparr>"

text \<open>\<^verbatim>\<open>send\<close>: only when \<^verbatim>\<open>this.ws\<close> is set and open.\<close>

definition send :: "message \<Rightarrow> Client \<Rightarrow> Client" where
  "send m c =
     (case ws c of
        None \<Rightarrow> c
      | Some i \<Rightarrow>
          if i < length (sockets c) \<and> sock_readyState (sockets c ! i) = OPEN
          then c\<lparr> wire := wire c @ [(i, m)] \<rparr> else c)"

text \<open>\<^verbatim>\<open>connect\<close>: a new socket, stored in \<^verbatim>\<open>this.ws\<close>.\<close>

definition connect :: "int \<Rightarrow> int \<Rightarrow> Client \<Rightarrow> Client" where
  "connect u d c =
     c\<lparr> sockets := sockets c @ [\<lparr> sock_readyState = CONNECTING, sock_userId = u, sock_contractId = d \<rparr>],
        ws := Some (length (sockets c)) \<rparr>"

text \<open>The message \<^verbatim>\<open>onopen\<close> sends.\<close>

definition join_message :: "int \<Rightarrow> int \<Rightarrow> message" where
  "join_message u d =
     \<lparr> msg_type = ''join'', msg_userId = Some u, msg_contractId = Some d,
       msg_position = Some \<lparr> line = 0, character = 0 \<rparr>, msg_content = None, msg_wordCount = None \<rparr>"

text \<open>
  The other two messages a client sends, built by \<^verbatim>\<open>updateCursorPosition\<close> and
  \<^verbatim>\<open>sendContentChange\<close> of the collaboration hook.
\<close>

definition cursor_move_message :: "position \<Rightarrow> message" where
  "cursor_move_message pos =
     \<lparr> msg_type = ''cursor_move'', msg_userId = None, msg_contractId = None,
       msg_position = Some pos, msg_content = None, msg_wordCount = None \<rparr>"

definition content_change_message :: "string \<Rightarrow> int \<Rightarrow> message" where
  "content_change_message c n =
     \<lparr> msg_type = ''content_change'', msg_userId = None, msg_contractId = None,
       msg_position = None, msg_content = Some c, msg_wordCount = Some n \<rparr>"

text \<open>\<^verbatim>\<open>onopen\<close>: the counter is reset, then the join is sent through \<^verbatim>\<open>this.send\<close>.\<close>

definition onopen :: "int \<Rightarrow> int \<Rightarrow> Client \<Rightarrow> Client" where
  "onopen u d c = send (join_message u d) (c\<lparr> reconnectAttempts := 0 \<rparr>)"

text \<open>
  \<^verbatim>\<open>attemptReconnect\<close>: below the maximum the counter is incremented and
  \<^verbatim>\<open>connect\<close> is scheduled after \<^verbatim>\<open>reconnectDelay * reconnectAttempts\<close>, the product
  taken after the increment; otherwise nothing happens. \<^verbatim>\<open>onclose\<close> calls it with
  the arguments its socket was created for, whatever closed the socket.
\<close>

definition attemptReconnect :: "int \<Rightarrow> int \<Rightarrow> Client \<Rightarrow> Client" where
  "attemptReconnect u d c =
     (if reconnectAttempts c < maxReconnectAttempts c
      then (let c1 = c\<lparr> reconnectAttempts := reconnectAttempts c + 1 \<rparr>
            in c1\<lparr> timers := timers c1 @ [(reconnectDelay c1 * reconnectAttempts c1, u, d)] \<rparr>)
      else c)"

definition onclose :: "int \<Rightarrow> int \<Rightarrow> Client \<Rightarrow> Client" where
  "onclose u d c = attemptReconnect u d c"

text \<open>
  \<^verbatim>\<open>disconnect\<close>: \<^verbatim>\<open>this.ws.close()\<close> starts the closing handshake of a socket that
  is connecting or open, then \<^verbatim>\<open>this.ws = null\<close>. The handlers stay on the socket.
\<close>

definition disconnect :: "Client \<Rightarrow> Client" where
  "disconnect c =
     (case ws c of
        None \<Rightarrow> c
      | Some i \<Rightarrow>
          (if i < length (sockets c) \<and> sock_readyState (sockets c ! i) \<in> {CONNECTING, OPEN}
           then set_readyState i CLOSING c else c)\<lparr> ws := None \<rparr>)"

text \<open>
  What the browser does: a connecting socket opens and its \<^verbatim>\<open>onopen\<close> runs; a
  socket that is not yet closed closes and its \<^verbatim>\<open>onclose\<close> runs; a pending timer
  fires and calls \<^verbatim>\<open>connect\<close> with the captured arguments.
\<close>

definition transport_open :: "nat \<Rightarrow> Client \<Rightarrow> Client" where
  "transport_open i c =
     (if i < length (sockets c) \<and> sock_readyState (sockets c ! i) = CONNECTING
      then onopen (sock_userId (sockets c ! i)) (sock_contractId (sockets c ! i))
             (set_readyState i OPEN c)
      else c)"

definition transport_close :: "nat \<Rightarrow> Client \<Rightarrow> Client" where
  "transport_close i c =
     (if i < length (sockets c) \<and> sock_readyState (sockets c ! i) \<noteq> CLOSED
      then onclose (sock_userId (sockets c ! i)) (sock_contractId (sockets c ! i))
             (set_readyState i CLOSED c)
      else c)"

definition timeout :: "nat \<Rightarrow> Client \<Rightarrow> Client" where
  "timeout k c =
     (if k < length (timers c)
      then (case timers c ! k of
              (delay, u, d) \<Rightarrow> connect u d (c\<lparr> timers := take k (timers c) @ drop (Suc k) (timers c) \<rparr>))
      else c)"

datatype client_event =
    Connect int int
  | Disconnect
  | Send message
  | TransportOpen nat
  | TransportClose nat
  | Timeout nat

fun client_step :: "client_event \<Rightarrow> Client \<Rightarrow> Client" where
  "client_step (Connect u d) c = connect u d c"
| "client_step Disconnect c = disconnect c"
| "client_step (Send m) c = send m c"
| "client_step (TransportOpen i) c = transport_open i c"
| "client_step (TransportClose i) c = transport_close i c"
| "client_step (Timeout k) c = timeout k c"

definition client_run :: "client_event list \<Rightarrow> Client \<Rightarrow> Client" where
  "client_run evs c = fold client_step evs c"

text \<open>
  One failed round of the connection: the pending reconnect timer (if any) fires,
  and the socket in \<^verbatim>\<open>this.ws\<close> closes without having opened.
\<close>

definition failed_round :: "Client \<Rightarrow> Client" where
  "failed_round c =
     (let c1 = timeout 0 c
      in case ws c1 of None \<Rightarrow> c1 | Some i \<Rightarrow> transport_close i c1)"

section \<open>Example data\<close>

text \<open>A store with no presence record and one contract, number 7.\<close>

definition example_contract :: Contract where
  "example_contract =
     \<lparr> contract_id = 7, title = ''Service Agreement'', content = Some ''draft'',
       projectId = 1, createdById = 1, version = ''2.1'', status = ''draft'',
       riskScore = Some ''medium'', completeness = Some 87, wordCount = Some 1,
       readingLevel = Some ''Grade 12'', createdAt = 0, updatedAt = 0 \<rparr>"

definition example_store :: MemStorage where
  "example_store = \<lparr> contracts = [7 \<mapsto> example_contract], presenceData = [] \<rparr>"

text \<open>
  Connections 0, 1 and 2 join contract 7 as users 1, 2 and 3; connection 0 then
  sends a join without \<^verbatim>\<open>userId\<close> and closes.
\<close>

definition stale_subscriber_events :: "event list" where
  "stale_subscriber_events =
     [Message 0 (Some (join_message 1 7)) 10 ''a'' 11,
      Message 1 (Some (join_message 2 7)) 20 ''b'' 21,
      Message 2 (Some (join_message 3 7)) 30 ''c'' 31,
      Message 0 (Some ((join_message 1 7)\<lparr> msg_userId := None \<rparr>)) 40 ''d'' 41,
      Close 0]"

text \<open>Connection 0 joins contract 7 and then contract 8, as user 1.\<close>

definition two_joins_events :: "event list" where
  "two_joins_events =
     [Message 0 (Some (join_message 1 7)) 10 ''a'' 11,
      Message 0 (Some (join_message 1 8)) 20 ''b'' 21]"

text \<open>Connections 1 and 2 join contract 7 as users 2 and 3.\<close>

definition two_subscribers_events :: "event list" where
  "two_subscribers_events =
     [Message 1 (Some (join_message 2 7)) 20 ''b'' 21,
      Message 2 (Some (join_message 3 7)) 30 ''c'' 31]"

text \<open>
  A client connects as user 1 on contract 7, moves its cursor to line 2, character
  5, loses the connection and reconnects; and the events the server handles for it:
  the messages of the first connection (0), its close, and the message of the
  second connection (1).
\<close>

definition reconnect_client_events :: "client_event list" where
  "reconnect_client_events =
     [Connect 1 7, TransportOpen 0, Send (cursor_move_message \<lparr> line = 2, character = 5 \<rparr>),
      TransportClose 0, Timeout 0, TransportOpen 1]"

definition before_drop_client_events :: "client_event list" where
  "before_drop_client_events =
     [Connect 1 7, TransportOpen 0, Send (cursor_move_message \<lparr> line = 2, character = 5 \<rparr>)]"

definition before_rejoin_server_events :: "event list" where
  "before_rejoin_server_events =
     [Message 0 (Some (join_message 1 7)) 10 ''a'' 11,
      Message 0 (Some (cursor_move_message \<lparr> line = 2, character = 5 \<rparr>)) 20 ''b'' 21,
      Close 0]"

text \<open>
  The state of a manager that connected for \<^verbatim>\<open>(u, d)\<close> and then went through \<open>n\<close>
  failed rounds, in closed form.
\<close>

definition closed_socket :: "int \<Rightarrow> int \<Rightarrow> socket" where
  "closed_socket u d = \<lparr> sock_readyState = CLOSED, sock_userId = u, sock_contractId = d \<rparr>"

definition after_failures :: "int \<Rightarrow> int \<Rightarrow> nat \<Rightarrow> Client" where
  "after_failures u d n =
     (if n = 0 then connect u d new_WebSocketManager
      else if n \<le> 5 then
        \<lparr> ws = Some (n - 1), reconnectAttempts = n, maxReconnectAttempts = 5, reconnectDelay = 1000,
          sockets = replicate n (closed_socket u d), timers = [(1000 * n, u, d)], wire = [] \<rparr>
      else
        \<lparr> ws = Some 5, reconnectAttempts = 5, maxReconnectAttempts = 5, reconnectDelay = 1000,
          sockets = replicate 6 (closed_socket u d), timers = [], wire = [] \<rparr>)"

text \<open>
  Connection 0 sends, in one chunk, a join for contract 7 and a join for contract 8,
  both as user 1, while connection 1 is subscribed to contract 7 and connection 2
  to contract 8.
\<close>

definition two_joins_one_chunk :: event where
  "two_joins_one_chunk =
     Frames 0 [\<lparr> frame_data = Some (join_message 1 7), frame_now = 40, frame_uuid = ''d'',
                  frame_later = 42 \<rparr>,
               \<lparr> frame_data = Some (join_message 1 8), frame_now = 41, frame_uuid = ''e'',
                  frame_later = 43 \<rparr>]"

definition one_on_each_events :: "event list" where
  "one_on_each_events =
     [Message 1 (Some (join_message 2 7)) 20 ''b'' 21,
      Message 2 (Some (join_message 3 8)) 30 ''c'' 31]"

text \<open>
  Connection 0 sends, in one chunk, a join for contract 7 without \<^verbatim>\<open>userId\<close>, a
  content change, and a join for contract 8 as user 9.
\<close>

definition content_change_then_join_chunk :: event where
  "content_change_then_join_chunk =
     Frames 0 [\<lparr> frame_data = Some ((join_message 1 7)\<lparr> msg_userId := None \<rparr>), frame_now = 40,
                  frame_uuid = ''d'', frame_later = 43 \<rparr>,
               \<lparr> frame_data = Some (content_change_message ''new'' 1), frame_now = 41,
                  frame_uuid = ''e'', frame_later = 44 \<rparr>,
               \<lparr> frame_data = Some (join_message 9 8), frame_now = 42, frame_uuid = ''f'',
                  frame_later = 45 \<rparr>]"

text \<open>Four frames, used as the frames of one chunk of connection 0.\<close>

definition join_frame :: frame where
  "join_frame = \<lparr> frame_data = Some (join_message 1 7), frame_now = 40, frame_uuid = ''d'',
                   frame_later = 44 \<rparr>"

definition rejected_join_frame :: frame where
  "rejected_join_frame =
     \<lparr> frame_data = Some ((join_message 1 7)\<lparr> msg_userId := None \<rparr>), frame_now = 40,
       frame_uuid = ''d'', frame_later = 44 \<rparr>"

definition cursor_frame :: frame where
  "cursor_frame =
     \<lparr> frame_data = Some (cursor_move_message \<lparr> line = 2, character = 5 \<rparr>), frame_now = 41,
       frame_uuid = ''e'', frame_later = 45 \<rparr>"

definition content_frame :: frame where
  "content_frame =
     \<lparr> frame_data = Some (content_change_message ''new'' 1), frame_now = 42,
       frame_uuid = ''f'', frame_later = 46 \<rparr>"

section \<open>Properties of the presence store\<close>

lemma values_in_inv:
  assumes "presence_inv st" and "r \<in> set (map snd (presenceData st))"
  shows "map_of (presenceData st) (presence_key (userId r) (contractId r)) = Some r"
proof -
  from assms(2) obtain k where kr: "(k, r) \<in> set (presenceData st)" by auto
  with assms(1) have "k = presence_key (userId r) (contractId r)"
    by (auto simp: presence_inv_def)
  moreover from assms(1) have "distinct (map fst (presenceData st))"
    by (simp add: presence_inv_def)
  ultimately show ?thesis using kr by simp
qed

text \<open>The key determines the user and the contract.\<close>

lemma of_char_digit_char: "d < 10 \<Longrightarrow> of_char (digit_char d) = 48 + d"
  by (simp add: digit_char_def)

lemma digit_char_inj:
  assumes "a < 10" "b < 10" "digit_char a = digit_char b"
  shows "a = b"
proof -
  from assms(3) have "(of_char (digit_char a) :: nat) = of_char (digit_char b)" by simp
  with assms(1,2) show ?thesis by (simp add: of_char_digit_char)
qed

lemma digit_char_not_minus: "d < 10 \<Longrightarrow> digit_char d \<noteq> CHR ''-''"
proof
  assume d: "d < 10" and "digit_char d = CHR ''-''"
  then have "(of_char (digit_char d) :: nat) = of_char CHR ''-''" by simp
  with d show False by (simp add: of_char_digit_char)
qed

lemma digits_of_nonempty: "digits_of n \<noteq> []"
  by (subst digits_of.simps) simp

lemma digits_of_no_minus: "CHR ''-'' \<notin> set (digits_of n)"
proof (induction n rule: digits_of.induct)
  case (1 n)
  show ?case
  proof (cases "n < 10")
    case True
    then show ?thesis using digit_char_not_minus [of n] by (subst digits_of.simps) auto
  next
    case False
    have "n mod 10 < 10" by simp
    with False 1 show ?thesis
      using digit_char_not_minus [of "n mod 10"] by (subst digits_of.simps) auto
  qed
qed

lemma digits_of_inj: "digits_of n = digits_of m \<Longrightarrow> n = m"
proof (induction n arbitrary: m rule: digits_of.induct)
  case (1 n)
  show ?case
  proof (cases "n < 10")
    case n: True
    show ?thesis
    proof (cases "m < 10")
      case True
      with n "1.prems" show ?thesis
        using digit_char_inj [of n m] by (simp add: digits_of.simps [of n] digits_of.simps [of m])
    next
      case False
      with n "1.prems" digits_of_nonempty [of "m div 10"] show ?thesis
        by (simp add: digits_of.simps [of n] digits_of.simps [of m])
    qed
  next
    case n: False
    show ?thesis
    proof (cases "m < 10")
      case True
      with n "1.prems" digits_of_nonempty [of "n div 10"] show ?thesis
        by (simp add: digits_of.simps [of n] digits_of.simps [of m])
    next
      case False
      with n "1.prems" have eq: "digits_of (n div 10) = digits_of (m div 10)"
        and last: "digit_char (n mod 10) = digit_char (m mod 10)"
        by (simp_all add: digits_of.simps [of n] digits_of.simps [of m])
      from "1.IH" [OF n eq] have "n div 10 = m div 10" .
      moreover from last have "n mod 10 = m mod 10"
        using digit_char_inj [of "n mod 10" "m mod 10"] by simp
      ultimately show ?thesis by (metis div_mult_mod_eq)
    qed
  qed
qed

lemma split_at_first:
  assumes "xs @ a # ys = xs' @ a # ys'" and "a \<notin> set xs" and "a \<notin> set xs'"
  shows "xs = xs' \<and> ys = ys'"
proof -
  have "takeWhile (\<lambda>x. x \<noteq> a) (xs @ a # ys) = xs"
    using assms(2) by (subst takeWhile_append2) auto
  moreover have "takeWhile (\<lambda>x. x \<noteq> a) (xs' @ a # ys') = xs'"
    using assms(3) by (subst takeWhile_append2) auto
  ultimately have "xs = xs'" using assms(1) by simp
  with assms(1) show ?thesis by simp
qed

lemma number_to_string_inj: "number_to_string i = number_to_string j \<Longrightarrow> i = j"
proof -
  assume eq: "number_to_string i = number_to_string j"
  have hd_digits: "hd (digits_of n) \<noteq> CHR ''-''" for n
    using digits_of_no_minus [of n] digits_of_nonempty [of n] by (cases "digits_of n") auto
  show ?thesis
  proof (cases "i < 0"; cases "j < 0")
    assume "i < 0" "j < 0"
    with eq have "nat (- i) = nat (- j)" by (simp add: number_to_string_def digits_of_inj)
    with \<open>i < 0\<close> \<open>j < 0\<close> show ?thesis by simp
  next
    assume "i < 0" "\<not> j < 0"
    with eq have "CHR ''-'' # digits_of (nat (- i)) = digits_of (nat j)"
      by (simp add: number_to_string_def)
    then have "hd (digits_of (nat j)) = CHR ''-''" by (metis list.sel(1))
    with hd_digits show ?thesis by simp
  next
    assume "\<not> i < 0" "j < 0"
    with eq have "digits_of (nat i) = CHR ''-'' # digits_of (nat (- j))"
      by (simp add: number_to_string_def)
    then have "hd (digits_of (nat i)) = CHR ''-''" by (metis list.sel(1))
    with hd_digits show ?thesis by simp
  next
    assume "\<not> i < 0" "\<not> j < 0"
    with eq have "nat i = nat j" by (simp add: number_to_string_def digits_of_inj)
    with \<open>\<not> i < 0\<close> \<open>\<not> j < 0\<close> show ?thesis by simp
  qed
qed

lemma presence_key_inj:
  assumes "presence_key u c = presence_key u' c'"
  shows "u = u' \<and> c = c'"
proof -
  have shape: "\<exists>sg ds. number_to_string i = sg @ ds \<and> (sg = [] \<or> sg = ''-'') \<and>
      CHR ''-'' \<notin> set ds \<and> ds \<noteq> []" for i
  proof (cases "i < 0")
    case True
    then have "number_to_string i = ''-'' @ digits_of (nat (- i))"
      by (simp add: number_to_string_def)
    then show ?thesis using digits_of_no_minus digits_of_nonempty by blast
  next
    case False
    then have "number_to_string i = [] @ digits_of (nat i)"
      by (simp add: number_to_string_def)
    then show ?thesis using digits_of_no_minus digits_of_nonempty by blast
  qed
  obtain sg ds where u: "number_to_string u = sg @ ds" "sg = [] \<or> sg = ''-''"
    "CHR ''-'' \<notin> set ds" "ds \<noteq> []" using shape [of u] by blast
  obtain sg' ds' where u': "number_to_string u' = sg' @ ds'" "sg' = [] \<or> sg' = ''-''"
    "CHR ''-'' \<notin> set ds'" "ds' \<noteq> []" using shape [of u'] by blast
  from assms have eq: "sg @ ds @ CHR ''-'' # number_to_string c =
      sg' @ ds' @ CHR ''-'' # number_to_string c'"
    by (simp add: presence_key_def u u')
  have "sg = sg'"
  proof (rule ccontr)
    assume "sg \<noteq> sg'"
    with u(2) u'(2) consider "sg = []" "sg' = ''-''" | "sg = ''-''" "sg' = []" by auto
    then show False
    proof cases
      case 1
      with eq u(3,4) show False by (cases ds) auto
    next
      case 2
      with eq u'(3,4) show False by (cases ds') auto
    qed
  qed
  with eq have "ds @ CHR ''-'' # number_to_string c = ds' @ CHR ''-'' # number_to_string c'"
    by simp
  from split_at_first [OF this u(3) u'(3)] \<open>sg = sg'\<close>
  have "number_to_string u = number_to_string u'" "number_to_string c = number_to_string c'"
    by (simp_all add: u u')
  then show ?thesis by (simp add: number_to_string_inj)
qed

lemma stored_for_pair:
  assumes "presence_inv st"
  shows "map_of (presenceData st) (presence_key u c) = None \<longleftrightarrow>
         (\<forall>r \<in> set (map snd (presenceData st)). \<not> (userId r = u \<and> contractId r = c))"
proof
  assume none: "map_of (presenceData st) (presence_key u c) = None"
  show "\<forall>r \<in> set (map snd (presenceData st)). \<not> (userId r = u \<and> contractId r = c)"
  proof (intro ballI notI)
    fix r assume "r \<in> set (map snd (presenceData st))" and "userId r = u \<and> contractId r = c"
    with values_in_inv [OF assms] have "map_of (presenceData st) (presence_key u c) = Some r"
      by auto
    with none show False by simp
  qed
next
  assume all: "\<forall>r \<in> set (map snd (presenceData st)). \<not> (userId r = u \<and> contractId r = c)"
  show "map_of (presenceData st) (presence_key u c) = None"
  proof (rule ccontr)
    assume "map_of (presenceData st) (presence_key u c) \<noteq> None"
    then obtain r where r: "map_of (presenceData st) (presence_key u c) = Some r" by auto
    then have mem: "(presence_key u c, r) \<in> set (presenceData st)" by (rule map_of_SomeD)
    with assms have "presence_key u c = presence_key (userId r) (contractId r)"
      by (auto simp: presence_inv_def)
    then have "userId r = u \<and> contractId r = c" using presence_key_inj by metis
    moreover from mem have "r \<in> set (map snd (presenceData st))" by force
    ultimately show False using all by blast
  qed
qed

lemma presence_inv_empty: "presence_inv \<lparr> contracts = cs, presenceData = [] \<rparr>"
  by (simp add: presence_inv_def)

lemma set_update_subset:
  "set (AList.update k v al) \<subseteq> insert (k, v) (set al)"
  by (induction al) auto

lemma presence_inv_update:
  assumes "presence_inv st" and "k = presence_key (userId r) (contractId r)"
  shows "presence_inv (st\<lparr> presenceData := AList.update k r (presenceData st) \<rparr>)"
  using assms set_update_subset [of k r "presenceData st"]
  by (auto simp: presence_inv_def distinct_update)

lemma presence_inv_upsert:
  "presence_inv st \<Longrightarrow> presence_inv (snd (upsertPresence ins now uuid st))"
  unfolding upsertPresence_def Let_def snd_conv
  by (rule presence_inv_update) simp_all

lemma presence_inv_remove:
  assumes "presence_inv st"
  shows "presence_inv (snd (removePresence u c st))"
proof (cases "map_of (presenceData st) (presence_key u c)")
  case None
  then show ?thesis using assms by (simp add: removePresence_def)
next
  case (Some p)
  then have "(presence_key u c, p) \<in> set (presenceData st)" by (rule map_of_SomeD)
  with assms have "presence_key u c = presence_key (userId p) (contractId p)"
    by (auto simp: presence_inv_def)
  then have "presence_inv (st\<lparr> presenceData :=
      AList.update (presence_key u c) (p\<lparr> isActive := Some False \<rparr>) (presenceData st) \<rparr>)"
    using assms by (intro presence_inv_update) simp_all
  with Some show ?thesis by (simp add: removePresence_def)
qed

text \<open>
  Claim C9. \<^verbatim>\<open>removePresence\<close> (the spec's markInactive) returns false and leaves
  the store as it is when no record is stored for the pair (under the key of the
  pair, which in a store built by the two writers means: no record with that user
  and contract at all). When a record is stored
  it returns true; the record stays under its key with only \<^verbatim>\<open>isActive\<close> changed to
  false, so its position is kept; every other record, the order of the map and the
  contracts are untouched; and \<^verbatim>\<open>getPresenceByContract\<close> for the document lists no
  record of that user any more.
\<close>

theorem removePresence_soft_delete:
  "(map_of (presenceData st) (presence_key u c) = None \<longrightarrow> removePresence u c st = (False, st)) \<and>
   (\<forall>p. map_of (presenceData st) (presence_key u c) = Some p \<longrightarrow>
      fst (removePresence u c st) = True \<and>
      map_of (presenceData (snd (removePresence u c st))) (presence_key u c)
        = Some (p\<lparr> isActive := Some False \<rparr>) \<and>
      position (p\<lparr> isActive := Some False \<rparr>) = position p \<and>
      (\<forall>k. k \<noteq> presence_key u c \<longrightarrow>
         map_of (presenceData (snd (removePresence u c st))) k = map_of (presenceData st) k) \<and>
      map fst (presenceData (snd (removePresence u c st))) = map fst (presenceData st) \<and>
      contracts (snd (removePresence u c st)) = contracts st \<and>
      (presence_inv st \<longrightarrow>
         (\<forall>r \<in> set (getPresenceByContract c (snd (removePresence u c st))). userId r \<noteq> u))) \<and>
   (presence_inv st \<longrightarrow>
      (map_of (presenceData st) (presence_key u c) = None \<longleftrightarrow>
       (\<forall>r \<in> set (map snd (presenceData st)). \<not> (userId r = u \<and> contractId r = c))))"
proof (intro conjI allI impI)
  assume "map_of (presenceData st) (presence_key u c) = None"
  then show "removePresence u c st = (False, st)" by (simp add: removePresence_def)
next
  assume "presence_inv st"
  then show "map_of (presenceData st) (presence_key u c) = None \<longleftrightarrow>
       (\<forall>r \<in> set (map snd (presenceData st)). \<not> (userId r = u \<and> contractId r = c))"
    by (rule stored_for_pair)
next
  fix p assume p: "map_of (presenceData st) (presence_key u c) = Some p"
  let ?st' = "snd (removePresence u c st)"
  have st': "presenceData ?st' =
      AList.update (presence_key u c) (p\<lparr> isActive := Some False \<rparr>) (presenceData st)"
    using p by (simp add: removePresence_def)
  show "fst (removePresence u c st) = True" using p by (simp add: removePresence_def)
  show at_key: "map_of (presenceData ?st') (presence_key u c) = Some (p\<lparr> isActive := Some False \<rparr>)"
    by (simp add: st' update_conv')
  show "position (p\<lparr> isActive := Some False \<rparr>) = position p" by simp
  show "map_of (presenceData ?st') k = map_of (presenceData st) k" if "k \<noteq> presence_key u c" for k
    using that by (simp add: st' update_conv')
  have "presence_key u c \<in> set (map fst (presenceData st))"
    using p by (metis map_of_eq_None_iff option.distinct(1) set_map)
  then show "map fst (presenceData ?st') = map fst (presenceData st)"
    by (simp add: st' update_keys)
  show "contracts ?st' = contracts st" using p by (simp add: removePresence_def)
  show "\<forall>r \<in> set (getPresenceByContract c ?st'). userId r \<noteq> u" if inv: "presence_inv st"
  proof
    fix r assume r: "r \<in> set (getPresenceByContract c ?st')"
    show "userId r \<noteq> u"
    proof
      assume u: "userId r = u"
      from r have mem: "r \<in> set (map snd (presenceData ?st'))" and c: "contractId r = c"
        and act: "isActive r = Some True"
        by (auto simp: getPresenceByContract_def)
      from inv have "presence_inv ?st'" by (rule presence_inv_remove)
      from values_in_inv [OF this mem] u c at_key have "r = p\<lparr> isActive := Some False \<rparr>" by simp
      with act show False by simp
    qed
  qed
qed


text \<open>The keys used in the examples below.\<close>

lemma key17: "presence_key 1 7 = ''1-7''" by code_simp
lemma key27: "presence_key 2 7 = ''2-7''" by code_simp

lemma filter_pair_values:
  assumes "distinct (map fst al)"
    and "\<forall>(k, r) \<in> set al. k = presence_key (userId r) (contractId r)"
  shows "filter (\<lambda>r. userId r = u \<and> contractId r = c) (map snd al) =
         (case map_of al (presence_key u c) of
            None \<Rightarrow> []
          | Some r \<Rightarrow> if userId r = u \<and> contractId r = c then [r] else [])"
  using assms
proof (induction al)
  case Nil
  then show ?case by simp
next
  case (Cons a al)
  obtain k r where a: "a = (k, r)" by (cases a)
  from Cons.prems a have k: "k = presence_key (userId r) (contractId r)"
    and notin: "k \<notin> fst ` set al" by auto
  from Cons have IH: "filter (\<lambda>r. userId r = u \<and> contractId r = c) (map snd al) =
         (case map_of al (presence_key u c) of
            None \<Rightarrow> []
          | Some r \<Rightarrow> if userId r = u \<and> contractId r = c then [r] else [])" by simp
  show ?case
  proof (cases "k = presence_key u c")
    case True
    with notin have "map_of al (presence_key u c) = None" by (simp add: map_of_eq_None_iff)
    with IH True a show ?thesis by simp
  next
    case False
    with k have "\<not> (userId r = u \<and> contractId r = c)" by auto
    with IH False a show ?thesis by simp
  qed
qed

lemma active_pair_records:
  assumes "presence_inv st"
  shows "filter (\<lambda>r. userId r = u \<and> contractId r = c) (getPresenceByContract c st) =
         (case map_of (presenceData st) (presence_key u c) of
            None \<Rightarrow> []
          | Some r \<Rightarrow> if userId r = u \<and> contractId r = c \<and> isActive r = Some True then [r] else [])"
proof -
  have "filter (\<lambda>r. userId r = u \<and> contractId r = c) (getPresenceByContract c st) =
        filter (\<lambda>r. isActive r = Some True)
          (filter (\<lambda>r. userId r = u \<and> contractId r = c) (map snd (presenceData st)))"
    unfolding getPresenceByContract_def filter_filter
    by (rule filter_cong) auto
  also have "\<dots> = (case map_of (presenceData st) (presence_key u c) of
            None \<Rightarrow> []
          | Some r \<Rightarrow> if userId r = u \<and> contractId r = c \<and> isActive r = Some True then [r] else [])"
    using assms by (subst filter_pair_values) (auto simp: presence_inv_def split: option.splits)
  finally show ?thesis .
qed

lemma upsert_stored:
  "map_of (presenceData (snd (upsertPresence ins now uuid st)))
     (presence_key (userId ins) (contractId ins)) = Some (fst (upsertPresence ins now uuid st))"
  by (simp add: upsertPresence_def Let_def update_conv')

text \<open>
  Claim C8. Two upserts with the same user, document and position, active as every
  upsert of the router is, leave exactly one record of that pair in
  \<^verbatim>\<open>getPresenceByContract\<close>: the record returned by the second upsert. Each upsert
  stamps its record with the clock reading of that call.
\<close>

theorem upsertPresence_twice_one_record:
  assumes "presence_inv st" and "isActive ins = Some True"
  shows "let (p1, st1) = upsertPresence ins now1 uuid1 st;
             (p2, st2) = upsertPresence ins now2 uuid2 st1
         in filter (\<lambda>r. userId r = userId ins \<and> contractId r = contractId ins)
              (getPresenceByContract (contractId ins) st2) = [p2] \<and>
            length (filter (\<lambda>r. userId r = userId ins \<and> contractId r = contractId ins)
              (getPresenceByContract (contractId ins) st2)) = 1 \<and>
            position p2 = position ins \<and>
            lastSeen p1 = now1 \<and> lastSeen p2 = now2"
proof -
  obtain p1 st1 where 1: "upsertPresence ins now1 uuid1 st = (p1, st1)" by (cases "upsertPresence ins now1 uuid1 st")
  obtain p2 st2 where 2: "upsertPresence ins now2 uuid2 st1 = (p2, st2)" by (cases "upsertPresence ins now2 uuid2 st1")
  from assms(1) 1 have "presence_inv st1" using presence_inv_upsert [of st ins now1 uuid1] by simp
  then have inv2: "presence_inv st2" using presence_inv_upsert [of st1 ins now2 uuid2] 2 by simp
  have stored: "map_of (presenceData st2) (presence_key (userId ins) (contractId ins)) = Some p2"
    using upsert_stored [of ins now2 uuid2 st1] 2 by simp
  have p2: "userId p2 = userId ins" "contractId p2 = contractId ins" "isActive p2 = isActive ins"
    "position p2 = position ins" "lastSeen p2 = now2"
    using 2 by (auto simp: upsertPresence_def Let_def)
  have p1: "lastSeen p1 = now1" using 1 by (auto simp: upsertPresence_def Let_def)
  have "filter (\<lambda>r. userId r = userId ins \<and> contractId r = contractId ins)
              (getPresenceByContract (contractId ins) st2) = [p2]"
    using active_pair_records [OF inv2, of "userId ins" "contractId ins"] stored p2 assms(2) by simp
  with p1 p2 show ?thesis by (simp add: 1 2)
qed


theorem removePresence_soft_delete_witness:
  "map_of (presenceData \<lparr> contracts = Map.empty, presenceData =
       [(''1-7'', \<lparr> userId = 1, contractId = 7, position = Some \<lparr> line = 2, character = 5 \<rparr>,
                   isActive = Some True, presence_id = ''a'', lastSeen = 100 \<rparr>)] \<rparr>) (presence_key 2 7) = None \<and>
   removePresence 2 7 \<lparr> contracts = Map.empty, presenceData =
       [(''1-7'', \<lparr> userId = 1, contractId = 7, position = Some \<lparr> line = 2, character = 5 \<rparr>,
                   isActive = Some True, presence_id = ''a'', lastSeen = 100 \<rparr>)] \<rparr> =
     (False, \<lparr> contracts = Map.empty, presenceData =
       [(''1-7'', \<lparr> userId = 1, contractId = 7, position = Some \<lparr> line = 2, character = 5 \<rparr>,
                   isActive = Some True, presence_id = ''a'', lastSeen = 100 \<rparr>)] \<rparr>) \<and>
   map_of (presenceData \<lparr> contracts = Map.empty, presenceData =
       [(''1-7'', \<lparr> userId = 1, contractId = 7, position = Some \<lparr> line = 2, character = 5 \<rparr>,
                   isActive = Some True, presence_id = ''a'', lastSeen = 100 \<rparr>)] \<rparr>) (presence_key 1 7) =
     Some \<lparr> userId = 1, contractId = 7, position = Some \<lparr> line = 2, character = 5 \<rparr>,
            isActive = Some True, presence_id = ''a'', lastSeen = 100 \<rparr> \<and>
   presence_inv \<lparr> contracts = Map.empty, presenceData =
       [(''1-7'', \<lparr> userId = 1, contractId = 7, position = Some \<lparr> line = 2, character = 5 \<rparr>,
                   isActive = Some True, presence_id = ''a'', lastSeen = 100 \<rparr>)] \<rparr> \<and>
   fst (removePresence 1 7 \<lparr> contracts = Map.empty, presenceData =
       [(''1-7'', \<lparr> userId = 1, contractId = 7, position = Some \<lparr> line = 2, character = 5 \<rparr>,
                   isActive = Some True, presence_id = ''a'', lastSeen = 100 \<rparr>)] \<rparr>) = True \<and>
   getPresenceByContract 7 (snd (removePresence 1 7 \<lparr> contracts = Map.empty, presenceData =
       [(''1-7'', \<lparr> userId = 1, contractId = 7, position = Some \<lparr> line = 2, character = 5 \<rparr>,
                   isActive = Some True, presence_id = ''a'', lastSeen = 100 \<rparr>)] \<rparr>)) = []"
  (is "map_of (presenceData ?st) _ = None \<and> _ \<and> _ = Some ?p \<and> _")
proof -
  have none: "map_of (presenceData ?st) (presence_key 2 7) = None" by (simp add: key27)
  have some: "map_of (presenceData ?st) (presence_key 1 7) = Some ?p" by (simp add: key17)
  have inv: "presence_inv ?st" by (simp add: presence_inv_def key17)
  show ?thesis
    using none some inv removePresence_soft_delete [of ?st 2 7] removePresence_soft_delete [of ?st 1 7]
    by (simp add: removePresence_def getPresenceByContract_def Let_def key17)
qed

theorem upsertPresence_twice_one_record_witness:
  "presence_inv \<lparr> contracts = Map.empty, presenceData = [] \<rparr> \<and>
   isActive \<lparr> userId = 1, contractId = 7, position = Some \<lparr> line = 2, character = 5 \<rparr>,
              isActive = Some True \<rparr> = Some True \<and>
   (let (p1, st1) = upsertPresence \<lparr> userId = 1, contractId = 7,
                       position = Some \<lparr> line = 2, character = 5 \<rparr>, isActive = Some True \<rparr>
                       100 ''a'' \<lparr> contracts = Map.empty, presenceData = [] \<rparr>;
        (p2, st2) = upsertPresence \<lparr> userId = 1, contractId = 7,
                       position = Some \<lparr> line = 2, character = 5 \<rparr>, isActive = Some True \<rparr>
                       200 ''b'' st1
    in length (filter (\<lambda>r. userId r = 1 \<and> contractId r = 7) (getPresenceByContract 7 st2)) = 1 \<and>
       lastSeen p1 = 100 \<and> lastSeen p2 = 200)"
  (is "presence_inv ?st \<and> isActive ?ins = _ \<and> _")
proof -
  have inv: "presence_inv ?st" by (simp add: presence_inv_def)
  have act: "isActive ?ins = Some True" by simp
  show ?thesis
    using inv act upsertPresence_twice_one_record [OF inv act, of 100 "''a''" 200 "''b''"]
    by (simp add: Let_def split_beta)
qed

section \<open>Properties of the router\<close>

lemma fold_broadcast_fields [simp]:
  "clients (fold (broadcast_one m ex) cc s) = clients s"
  "vars (fold (broadcast_one m ex) cc s) = vars s"
  "readyState (fold (broadcast_one m ex) cc s) = readyState s"
  "storage (fold (broadcast_one m ex) cc s) = storage s"
  by (induction cc arbitrary: s) (simp_all add: broadcast_one_def socket_send_def)

lemma broadcast_one_sent:
  "sent (broadcast_one m ex a s) c =
     sent s c @ (if c = a \<and> Some a \<noteq> ex \<and> readyState s a = OPEN then [m] else [])"
  by (simp add: broadcast_one_def socket_send_def)

lemma broadcast_one_readyState [simp]:
  "readyState (broadcast_one m ex a s) = readyState s"
  by (simp add: broadcast_one_def socket_send_def)

lemma fold_broadcast_sent:
  "distinct cc \<Longrightarrow>
   sent (fold (broadcast_one m ex) cc s) c =
     sent s c @ (if c \<in> set cc \<and> Some c \<noteq> ex \<and> readyState s c = OPEN then [m] else [])"
proof (induction cc arbitrary: s)
  case Nil
  then show ?case by simp
next
  case (Cons a cc)
  have "sent (fold (broadcast_one m ex) (a # cc) s) c =
        sent (broadcast_one m ex a s) c @
          (if c \<in> set cc \<and> Some c \<noteq> ex \<and> readyState s c = OPEN then [m] else [])"
    using Cons by simp
  also have "\<dots> = sent s c @
          (if c \<in> set (a # cc) \<and> Some c \<noteq> ex \<and> readyState s c = OPEN then [m] else [])"
    using Cons.prems by (auto simp: broadcast_one_sent)
  finally show ?case .
qed

lemma broadcast_fields [simp]:
  "clients (broadcastToContract cid m ex s) = clients s"
  "vars (broadcastToContract cid m ex s) = vars s"
  "readyState (broadcastToContract cid m ex s) = readyState s"
  "storage (broadcastToContract cid m ex s) = storage s"
  by (simp_all add: broadcastToContract_def split: option.splits)

lemma broadcast_subscribed [simp]:
  "subscribed (broadcastToContract cid m ex s) = subscribed s"
  by (simp add: subscribed_def fun_eq_iff)

lemma broadcast_sent:
  assumes "clients_inv s"
  shows "sent (broadcastToContract cid m ex s) c =
     sent s c @ (if (case cid of None \<Rightarrow> False | Some d \<Rightarrow> subscribed s c d) \<and>
                    Some c \<noteq> ex \<and> readyState s c = OPEN then [m] else [])"
proof (cases cid)
  case None
  then show ?thesis by (simp add: broadcastToContract_def)
next
  case (Some d)
  show ?thesis
  proof (cases "clients s d")
    case None
    with Some show ?thesis by (simp add: broadcastToContract_def subscribed_def)
  next
    case (Some cc)
    with assms have "distinct cc" by (simp add: clients_inv_def)
    with Some \<open>cid = Some d\<close> show ?thesis
      by (simp add: broadcastToContract_def subscribed_def fold_broadcast_sent)
  qed
qed

lemma set_add_props [simp]:
  "set (set_add x xs) = insert x (set xs)"
  "set_add x xs \<noteq> []"
  "distinct (set_add x xs) = distinct xs"
  by (auto simp: set_add_def)

lemma clients_inv_cong: "clients s = clients s' \<Longrightarrow> clients_inv s = clients_inv s'"
  by (simp add: clients_inv_def)

text \<open>The continuations of the message handler only send.\<close>

lemma resume_message_fields:
  assumes "message_rest_of w t"
  shows "clients (resume t s) = clients s" "vars (resume t s) = vars s"
    "readyState (resume t s) = readyState s" "storage (resume t s) = storage s"
  using assms by (cases t; simp)+

lemma resume_message_sent:
  assumes "clients_inv s" and "message_rest_of w t"
  shows "sent (resume t s) c =
     sent s c @ (if (case conn_contractId (vars s w) of None \<Rightarrow> False | Some d \<Rightarrow> subscribed s c d) \<and>
                    c \<noteq> w \<and> readyState s c = OPEN
                 then [continuation_message (vars s w) t] else [])"
  using assms(2) by (cases t) (auto simp: broadcast_sent [OF assms(1)])

lemma fold_resume_fields:
  assumes "\<forall>t \<in> set q. message_rest_of w t"
  shows "clients (fold resume q s) = clients s \<and> vars (fold resume q s) = vars s \<and>
         readyState (fold resume q s) = readyState s \<and> storage (fold resume q s) = storage s"
  using assms
proof (induction q arbitrary: s)
  case Nil
  show ?case by simp
next
  case (Cons t q)
  from Cons.prems have t: "message_rest_of w t" and q: "\<forall>t \<in> set q. message_rest_of w t"
    by simp_all
  show ?case using Cons.IH [OF q, of "resume t s"] resume_message_fields [OF t, of s] by simp
qed

lemma fold_resume_sent:
  assumes "clients_inv s" and "\<forall>t \<in> set q. message_rest_of w t"
  shows "sent (fold resume q s) c =
     sent s c @ (if (case conn_contractId (vars s w) of None \<Rightarrow> False | Some d \<Rightarrow> subscribed s c d) \<and>
                    c \<noteq> w \<and> readyState s c = OPEN
                 then map (continuation_message (vars s w)) q else [])"
  using assms
proof (induction q arbitrary: s)
  case Nil
  then show ?case by simp
next
  case (Cons t q)
  from Cons.prems have t: "message_rest_of w t" and q: "\<forall>t \<in> set q. message_rest_of w t"
    by simp_all
  have same: "clients (resume t s) = clients s" "vars (resume t s) = vars s"
    "readyState (resume t s) = readyState s"
    using resume_message_fields [OF t] by simp_all
  then have inv: "clients_inv (resume t s)"
    using Cons.prems(1) clients_inv_cong [of "resume t s" s] by simp
  have sub: "subscribed (resume t s) = subscribed s"
    using same by (simp add: subscribed_def fun_eq_iff)
  show ?case
    using Cons.IH [OF inv q] resume_message_sent [OF Cons.prems(1) t, of c]
    by (simp add: same sub cong: option.case_cong)
qed


text \<open>The handlers up to the await.\<close>

lemmas handler_defs = message_handler_def join_case_def cursor_move_case_def
  content_change_case_def

lemma message_handler_rest:
  "\<forall>t \<in> set (snd (message_handler w f s)). message_rest_of w t"
  by (auto simp: handler_defs Let_def split: option.splits)

lemma message_handler_readyState [simp]:
  "readyState (fst (message_handler w f s)) = readyState s"
  by (auto simp: handler_defs Let_def socket_send_def split: option.splits)

lemma message_handler_sent:
  "sent (fst (message_handler w f s)) c =
     sent s c @ (if c = w \<and> frame_data f = None then [error_msg ''Invalid message format''] else [])"
  by (auto simp: handler_defs Let_def socket_send_def split: option.splits)

lemma clients_inv_message_handler:
  assumes "clients_inv s"
  shows "clients_inv (fst (message_handler w f s))"
  using assms
  by (auto simp: handler_defs socket_send_def clients_inv_def Let_def split: option.splits)

lemma message_handler_not_join:
  assumes "\<not> is_join f"
  shows "vars (fst (message_handler w f s)) = vars s" "clients (fst (message_handler w f s)) = clients s"
  using assms
  by (auto simp: handler_defs is_join_def socket_send_def Let_def split: option.splits)

lemma handle_frames_rest:
  "\<forall>t \<in> set (snd (handle_frames w fs s)). message_rest_of w t"
proof (induction fs arbitrary: s)
  case Nil
  show ?case by simp
next
  case (Cons f fs)
  show ?case
    using message_handler_rest [of w f s] Cons [of "fst (message_handler w f s)"]
    by (auto simp: split_beta)
qed

lemma handle_frames_readyState [simp]:
  "readyState (fst (handle_frames w fs s)) = readyState s"
  by (induction fs arbitrary: s) (simp_all add: split_beta)

lemma handle_frames_sent:
  "sent (fst (handle_frames w fs s)) c =
     sent s c @ (if c = w
                 then replicate (length (filter (\<lambda>f. frame_data f = None) fs))
                        (error_msg ''Invalid message format'')
                 else [])"
proof (induction fs arbitrary: s)
  case Nil
  show ?case by simp
next
  case (Cons f fs)
  show ?case
    using Cons [of "fst (message_handler w f s)"] message_handler_sent [of w f s c]
    by (simp add: split_beta replicate_append_same)
qed

lemma clients_inv_handle_frames:
  "clients_inv s \<Longrightarrow> clients_inv (fst (handle_frames w fs s))"
  by (induction fs arbitrary: s) (simp_all add: split_beta clients_inv_message_handler)

lemma handle_frames_no_join:
  assumes "\<forall>f \<in> set fs. \<not> is_join f"
  shows "vars (fst (handle_frames w fs s)) = vars s \<and> clients (fst (handle_frames w fs s)) = clients s"
  using assms
proof (induction fs arbitrary: s)
  case Nil
  show ?case by simp
next
  case (Cons f fs)
  from Cons.prems have f: "\<not> is_join f" and fs: "\<forall>f \<in> set fs. \<not> is_join f" by simp_all
  show ?case
    using Cons.IH [OF fs, of "fst (message_handler w f s)"] message_handler_not_join [OF f, of w s]
    by (simp add: split_beta)
qed

lemma step_Frames:
  "step (Frames w fs) s = fold resume (snd (handle_frames w fs s)) (fst (handle_frames w fs s))"
  by (simp add: split_beta)

lemma clients_inv_Frames:
  assumes "clients_inv s"
  shows "clients_inv (step (Frames w fs) s)"
proof -
  have "clients (step (Frames w fs) s) = clients (fst (handle_frames w fs s))"
    unfolding step_Frames using fold_resume_fields [OF handle_frames_rest] by blast
  then show ?thesis
    using clients_inv_handle_frames [OF assms, of w fs] clients_inv_cong by blast
qed

lemma clients_inv_Close:
  assumes "clients_inv s"
  shows "clients_inv (step (Close w) s)"
  using assms
  by (auto simp: close_handler_def clients_inv_def Let_def set_delete_def distinct_removeAll
      split: option.splits)

lemma clients_inv_init: "clients_inv (init st)"
  by (simp add: clients_inv_def init_def)

lemma clients_inv_step: "clients_inv s \<Longrightarrow> clients_inv (step e s)"
  by (cases e) (simp_all only: clients_inv_Frames clients_inv_Close)

lemma clients_inv_fold: "clients_inv s \<Longrightarrow> clients_inv (fold step evs s)"
  by (induction evs arbitrary: s) (simp_all add: clients_inv_step del: step.simps)

lemma clients_inv_run: "clients_inv (run evs (init st))"
  by (simp add: run_def clients_inv_fold clients_inv_init)

text \<open>What a chunk sends when no join follows another frame in it.\<close>

lemma chunk_sent:
  assumes inv: "clients_inv s" and nj: "\<forall>g \<in> set rest. \<not> is_join g"
  shows "sent (step (Frames w (f # rest)) s) c =
     sent s c @
       (if c = w
        then replicate (length (filter (\<lambda>g. frame_data g = None) (f # rest)))
               (error_msg ''Invalid message format'')
        else if (case conn_contractId (vars (fst (message_handler w f s)) w) of
                   None \<Rightarrow> False
                 | Some d \<Rightarrow> subscribed (fst (message_handler w f s)) c d) \<and>
                readyState s c = OPEN
        then map (continuation_message (vars (fst (message_handler w f s)) w))
               (snd (handle_frames w (f # rest) s))
        else [])"
proof -
  let ?sf = "fst (message_handler w f s)"
  let ?s1 = "fst (handle_frames w (f # rest) s)"
  let ?q = "snd (handle_frames w (f # rest) s)"
  have s1: "?s1 = fst (handle_frames w rest ?sf)" by (simp add: split_beta)
  have v: "vars ?s1 = vars ?sf" and cl: "clients ?s1 = clients ?sf"
    using handle_frames_no_join [OF nj, of w ?sf] by (simp_all add: split_beta)
  have sub: "subscribed ?s1 = subscribed ?sf" using cl by (simp add: subscribed_def fun_eq_iff)
  have rs: "readyState ?s1 = readyState s" by (rule handle_frames_readyState)
  have inv1: "clients_inv ?s1" using inv by (rule clients_inv_handle_frames)
  have "sent (step (Frames w (f # rest)) s) c = sent (fold resume ?q ?s1) c"
    by (simp only: step_Frames)
  also have "\<dots> = sent ?s1 c @
      (if (case conn_contractId (vars ?s1 w) of None \<Rightarrow> False | Some d \<Rightarrow> subscribed ?s1 c d) \<and>
          c \<noteq> w \<and> readyState ?s1 c = OPEN
       then map (continuation_message (vars ?s1 w)) ?q else [])"
    by (rule fold_resume_sent [OF inv1 handle_frames_rest])
  also have "\<dots> = sent ?s1 c @
      (if (case conn_contractId (vars ?sf w) of None \<Rightarrow> False | Some d \<Rightarrow> subscribed ?sf c d) \<and>
          c \<noteq> w \<and> readyState s c = OPEN
       then map (continuation_message (vars ?sf w)) ?q else [])"
    by (simp only: v sub rs)
  finally show ?thesis
    using handle_frames_sent [of w "f # rest" s c] by simp
qed


lemma step_Frames_fields:
  "clients (step (Frames w fs) s) = clients (fst (handle_frames w fs s))"
  "vars (step (Frames w fs) s) = vars (fst (handle_frames w fs s))"
  "readyState (step (Frames w fs) s) = readyState s"
  "storage (step (Frames w fs) s) = storage (fst (handle_frames w fs s))"
  unfolding step_Frames using fold_resume_fields [OF handle_frames_rest, of w fs s]
  by simp_all

lemma handle_frames_single:
  "handle_frames w [f] s = message_handler w f s"
  by (simp add: split_beta)

lemma on_message_fields:
  "clients (on_message w data now uuid later s) =
     clients (fst (message_handler w \<lparr> frame_data = data, frame_now = now, frame_uuid = uuid,
                                        frame_later = later \<rparr> s))"
  "vars (on_message w data now uuid later s) =
     vars (fst (message_handler w \<lparr> frame_data = data, frame_now = now, frame_uuid = uuid,
                                     frame_later = later \<rparr> s))"
  "readyState (on_message w data now uuid later s) = readyState s"
  "storage (on_message w data now uuid later s) =
     storage (fst (message_handler w \<lparr> frame_data = data, frame_now = now, frame_uuid = uuid,
                                        frame_later = later \<rparr> s))"
  unfolding on_message_def Message_def
  by (simp_all only: step_Frames_fields handle_frames_single)

lemma on_message_sent:
  assumes "clients_inv s"
  shows "sent (on_message w (Some m) now uuid later s) c =
     sent s c @
       (if (case conn_contractId (vars (on_message w (Some m) now uuid later s) w) of
              None \<Rightarrow> False
            | Some d \<Rightarrow> subscribed (on_message w (Some m) now uuid later s) c d) \<and>
           c \<noteq> w \<and> readyState s c = OPEN
        then map (continuation_message (vars (on_message w (Some m) now uuid later s) w))
               (snd (message_handler w \<lparr> frame_data = Some m, frame_now = now, frame_uuid = uuid,
                                         frame_later = later \<rparr> s))
        else [])"
proof -
  let ?f = "\<lparr> frame_data = Some m, frame_now = now, frame_uuid = uuid, frame_later = later \<rparr>"
  have sub: "subscribed (on_message w (Some m) now uuid later s) =
      subscribed (fst (message_handler w ?f s))"
    by (simp add: subscribed_def fun_eq_iff on_message_fields)
  have "sent (step (Frames w [?f]) s) c = sent s c @
       (if c = w then []
        else if (case conn_contractId (vars (fst (message_handler w ?f s)) w) of
                   None \<Rightarrow> False
                 | Some d \<Rightarrow> subscribed (fst (message_handler w ?f s)) c d) \<and>
                readyState s c = OPEN
        then map (continuation_message (vars (fst (message_handler w ?f s)) w))
               (snd (message_handler w ?f s))
        else [])"
    using chunk_sent [OF assms, where rest = "[]" and w = w and f = ?f and c = c] by (simp only: handle_frames_single) simp
  then show ?thesis
    unfolding sub on_message_fields unfolding on_message_def Message_def by auto
qed

lemma join_sent:
  assumes inv: "clients_inv s"
    and m: "msg_type m = ''join''" "msg_userId m = Some u" "u \<noteq> 0"
           "msg_contractId m = Some d" "d \<noteq> 0"
  shows "sent (on_message w (Some m) now uuid later s) c =
         sent s c @ (if subscribed (on_message w (Some m) now uuid later s) c d \<and> c \<noteq> w \<and>
                        readyState s c = OPEN
                     then [presence_update_msg (Some u) (msg_position m) joined] else [])"
proof -
  let ?f = "\<lparr> frame_data = Some m, frame_now = now, frame_uuid = uuid, frame_later = later \<rparr>"
  have q: "snd (message_handler w ?f s) = [join_rest w m]"
    and v: "vars (fst (message_handler w ?f s)) w = \<lparr> conn_userId = Some u, conn_contractId = Some d \<rparr>"
    using m by (simp_all add: handler_defs Let_def)
  show ?thesis
    using on_message_sent [OF inv, where w = w and m = m and now = now and uuid = uuid and later = later and c = c]
    by (simp add: on_message_fields(2) q v)
qed

lemma cursor_move_sent:
  assumes inv: "clients_inv s"
    and m: "msg_type m = ''cursor_move''" "conn_userId (vars s w) = Some u" "u \<noteq> 0"
           "conn_contractId (vars s w) = Some d" "d \<noteq> 0"
  shows "sent (on_message w (Some m) now uuid later s) c =
         sent s c @ (if subscribed s c d \<and> c \<noteq> w \<and> readyState s c = OPEN
                     then [cursor_update_msg (Some u) (msg_position m)] else [])"
proof -
  let ?f = "\<lparr> frame_data = Some m, frame_now = now, frame_uuid = uuid, frame_later = later \<rparr>"
  have q: "snd (message_handler w ?f s) = [cursor_move_rest w m]"
    and v: "vars (fst (message_handler w ?f s)) = vars s"
    and cl: "clients (fst (message_handler w ?f s)) = clients s"
    using m by (simp_all add: handler_defs Let_def)
  have sub: "subscribed (on_message w (Some m) now uuid later s) = subscribed s"
    by (simp add: subscribed_def fun_eq_iff on_message_fields cl)
  show ?thesis
    using on_message_sent [OF inv, where w = w and m = m and now = now and uuid = uuid and later = later and c = c] m
    by (simp add: on_message_fields(2) q v sub)
qed

lemma content_change_sent:
  assumes inv: "clients_inv s"
    and m: "msg_type m = ''content_change''" "conn_contractId (vars s w) = Some d" "d \<noteq> 0"
  shows "sent (on_message w (Some m) now uuid later s) c =
         sent s c @ (if subscribed s c d \<and> c \<noteq> w \<and> readyState s c = OPEN
                     then [content_update_msg (msg_content m) (conn_userId (vars s w)) later] else [])"
proof -
  let ?f = "\<lparr> frame_data = Some m, frame_now = now, frame_uuid = uuid, frame_later = later \<rparr>"
  have q: "snd (message_handler w ?f s) = [content_change_rest w m later]"
    and v: "vars (fst (message_handler w ?f s)) = vars s"
    and cl: "clients (fst (message_handler w ?f s)) = clients s"
    using m by (simp_all add: handler_defs Let_def)
  have sub: "subscribed (on_message w (Some m) now uuid later s) = subscribed s"
    by (simp add: subscribed_def fun_eq_iff on_message_fields cl)
  show ?thesis
    using on_message_sent [OF inv, where w = w and m = m and now = now and uuid = uuid and later = later and c = c] m
    by (simp add: on_message_fields(2) q v sub)
qed


text \<open>
  Claim C1, as the code has it. In a state reached by any run of the server:
  a join, cursor_move or content_change that passes its guard and is the only
  frame of its chunk appends its broadcast exactly once to the messages of every
  connection in the subscription set of the target document that is not the sender
  and whose \<^verbatim>\<open>readyState\<close> is \<^verbatim>\<open>OPEN\<close>, and sends nothing to any other connection.
  More generally, in a chunk in which no join follows another frame, the
  broadcasts of all frames that pass their guards go, in order, to exactly those
  connections, for the document and with the \<^verbatim>\<open>userId\<close> the connection has after the
  first frame. And whatever the chunk, its sender is sent nothing but the replies to
  its unparseable frames: no echo.
\<close>

theorem broadcast_to_open_subscribers_except_sender:
  assumes "s = run evs (init st)"
  shows
    "(msg_type m = ''join'' \<and> msg_userId m = Some u \<and> u \<noteq> 0 \<and>
      msg_contractId m = Some d \<and> d \<noteq> 0 \<longrightarrow>
        (\<forall>c. sent (on_message w (Some m) now uuid later s) c =
              sent s c @ (if subscribed (on_message w (Some m) now uuid later s) c d \<and> c \<noteq> w \<and>
                             readyState s c = OPEN
                          then [presence_update_msg (Some u) (msg_position m) joined] else []))) \<and>
     (msg_type m = ''cursor_move'' \<and> conn_userId (vars s w) = Some u \<and> u \<noteq> 0 \<and>
      conn_contractId (vars s w) = Some d \<and> d \<noteq> 0 \<longrightarrow>
        (\<forall>c. sent (on_message w (Some m) now uuid later s) c =
              sent s c @ (if subscribed s c d \<and> c \<noteq> w \<and> readyState s c = OPEN
                          then [cursor_update_msg (Some u) (msg_position m)] else []))) \<and>
     (msg_type m = ''content_change'' \<and> conn_contractId (vars s w) = Some d \<and> d \<noteq> 0 \<longrightarrow>
        (\<forall>c. sent (on_message w (Some m) now uuid later s) c =
              sent s c @ (if subscribed s c d \<and> c \<noteq> w \<and> readyState s c = OPEN
                          then [content_update_msg (msg_content m) (conn_userId (vars s w)) later]
                          else []))) \<and>
     ((\<forall>g \<in> set rest. \<not> is_join g) \<longrightarrow>
        (\<forall>c. c \<noteq> w \<longrightarrow>
           sent (step (Frames w (f # rest)) s) c =
             sent s c @
               (if (case conn_contractId (vars (fst (message_handler w f s)) w) of
                      None \<Rightarrow> False
                    | Some d \<Rightarrow> subscribed (fst (message_handler w f s)) c d) \<and>
                   readyState s c = OPEN
                then map (continuation_message (vars (fst (message_handler w f s)) w))
                       (snd (handle_frames w (f # rest) s))
                else []))) \<and>
     sent (step (Frames w fs) s) w =
       sent s w @ replicate (length (filter (\<lambda>g. frame_data g = None) fs))
                    (error_msg ''Invalid message format'')"
proof -
  have inv: "clients_inv s" using assms by (simp add: clients_inv_run)
  have echo: "sent (step (Frames w fs) s) w =
       sent s w @ replicate (length (filter (\<lambda>g. frame_data g = None) fs))
                    (error_msg ''Invalid message format'')"
  proof -
    have "sent (step (Frames w fs) s) w = sent (fst (handle_frames w fs s)) w"
      unfolding step_Frames
      using fold_resume_sent [OF clients_inv_handle_frames [OF inv, where w = w and fs = fs]
          handle_frames_rest [where w = w and fs = fs and s = s], where c = w]
      by simp
    then show ?thesis by (simp only: handle_frames_sent) simp
  qed
  have chunk: "sent (step (Frames w (f # rest)) s) c =
             sent s c @
               (if (case conn_contractId (vars (fst (message_handler w f s)) w) of
                      None \<Rightarrow> False
                    | Some d \<Rightarrow> subscribed (fst (message_handler w f s)) c d) \<and>
                   readyState s c = OPEN
                then map (continuation_message (vars (fst (message_handler w f s)) w))
                       (snd (handle_frames w (f # rest) s))
                else [])"
    if "\<forall>g \<in> set rest. \<not> is_join g" "c \<noteq> w" for c
    using chunk_sent [OF inv that(1), where w = w and f = f and c = c] that(2) by (simp only: if_False)
  have j: "msg_type m = ''join'' \<and> msg_userId m = Some u \<and> u \<noteq> 0 \<and>
      msg_contractId m = Some d \<and> d \<noteq> 0 \<longrightarrow>
        (\<forall>c. sent (on_message w (Some m) now uuid later s) c =
              sent s c @ (if subscribed (on_message w (Some m) now uuid later s) c d \<and> c \<noteq> w \<and>
                             readyState s c = OPEN
                          then [presence_update_msg (Some u) (msg_position m) joined] else []))"
    using join_sent [OF inv] by simp
  have cm: "msg_type m = ''cursor_move'' \<and> conn_userId (vars s w) = Some u \<and> u \<noteq> 0 \<and>
      conn_contractId (vars s w) = Some d \<and> d \<noteq> 0 \<longrightarrow>
        (\<forall>c. sent (on_message w (Some m) now uuid later s) c =
              sent s c @ (if subscribed s c d \<and> c \<noteq> w \<and> readyState s c = OPEN
                          then [cursor_update_msg (Some u) (msg_position m)] else []))"
    using cursor_move_sent [OF inv] by simp
  have cc: "msg_type m = ''content_change'' \<and> conn_contractId (vars s w) = Some d \<and> d \<noteq> 0 \<longrightarrow>
        (\<forall>c. sent (on_message w (Some m) now uuid later s) c =
              sent s c @ (if subscribed s c d \<and> c \<noteq> w \<and> readyState s c = OPEN
                          then [content_update_msg (msg_content m) (conn_userId (vars s w)) later]
                          else []))"
    using content_change_sent [OF inv] by simp
  have ch: "(\<forall>g \<in> set rest. \<not> is_join g) \<longrightarrow>
        (\<forall>c. c \<noteq> w \<longrightarrow>
           sent (step (Frames w (f # rest)) s) c =
             sent s c @
               (if (case conn_contractId (vars (fst (message_handler w f s)) w) of
                      None \<Rightarrow> False
                    | Some d \<Rightarrow> subscribed (fst (message_handler w f s)) c d) \<and>
                   readyState s c = OPEN
                then map (continuation_message (vars (fst (message_handler w f s)) w))
                       (snd (handle_frames w (f # rest) s))
                else []))"
    by (intro impI allI) (rule chunk)
  show ?thesis by (intro conjI) (fact j, fact cm, fact cc, fact ch, fact echo)
qed


lemma join_rejected_handler:
  assumes "frame_data f = Some m" and "msg_type m = ''join''"
    and "msg_userId m = None \<or> msg_contractId m = None"
  shows "message_handler w f s =
         (s\<lparr> vars := (vars s)(w := \<lparr> conn_userId = msg_userId m,
                                        conn_contractId = msg_contractId m \<rparr>) \<rparr>, [])"
  using assms by (auto simp: handler_defs Let_def split: option.splits)

text \<open>
  Claim C2. A join whose \<^verbatim>\<open>userId\<close> or \<^verbatim>\<open>contractId\<close> is missing leaves the
  subscription map, the store (no presence upsert) and every connection's sent
  messages (no broadcast, no error reply) as they were; its handler ends before
  any \<^verbatim>\<open>await\<close> and leaves no continuation, so the same holds inside any chunk.
\<close>

theorem join_missing_field_dropped:
  assumes "msg_type m = ''join''" and "msg_userId m = None \<or> msg_contractId m = None"
  shows "clients (on_message w (Some m) now uuid later s) = clients s \<and>
         storage (on_message w (Some m) now uuid later s) = storage s \<and>
         sent (on_message w (Some m) now uuid later s) = sent s \<and>
         readyState (on_message w (Some m) now uuid later s) = readyState s \<and>
         (frame_data f = Some m \<longrightarrow>
            snd (message_handler w f s) = [] \<and>
            clients (fst (message_handler w f s)) = clients s \<and>
            storage (fst (message_handler w f s)) = storage s \<and>
            sent (fst (message_handler w f s)) = sent s \<and>
            readyState (fst (message_handler w f s)) = readyState s)"
proof -
  let ?f = "\<lparr> frame_data = Some m, frame_now = now, frame_uuid = uuid, frame_later = later \<rparr>"
  have "on_message w (Some m) now uuid later s =
        s\<lparr> vars := (vars s)(w := \<lparr> conn_userId = msg_userId m,
                                     conn_contractId = msg_contractId m \<rparr>) \<rparr>"
    using join_rejected_handler [OF _ assms, of ?f w s]
    by (simp add: on_message_def Message_def)
  moreover have "message_handler w f s =
         (s\<lparr> vars := (vars s)(w := \<lparr> conn_userId = msg_userId m,
                                        conn_contractId = msg_contractId m \<rparr>) \<rparr>, [])"
    if "frame_data f = Some m"
    using that assms by (rule join_rejected_handler)
  ultimately show ?thesis by simp
qed

lemma content_change_handler:
  assumes "frame_data f = Some m" and "msg_type m = ''content_change''"
    and "conn_contractId (vars s w) = Some d" and "d \<noteq> 0"
  shows "message_handler w f s =
         (s\<lparr> storage := snd (updateContract d (msg_content m)
                 (case msg_wordCount m of None \<Rightarrow> 0 | Some n \<Rightarrow> n) (frame_now f) (storage s)) \<rparr>,
          [content_change_rest w m (frame_later f)])"
  using assms by (simp add: handler_defs)

lemma content_change_handler_contracts:
  assumes "frame_data f = Some m" and "msg_type m = ''content_change''"
    and "conn_contractId (vars s w) = Some d" and "d \<noteq> 0"
    and "contracts (storage s) d = Some k"
  shows "contracts (storage (fst (message_handler w f s))) =
         (contracts (storage s))(d \<mapsto> k\<lparr> content := msg_content m,
            wordCount := Some (case msg_wordCount m of None \<Rightarrow> 0 | Some n \<Rightarrow> n),
            updatedAt := frame_now f \<rparr>)"
    and "vars (fst (message_handler w f s)) = vars s"
  using assms(5) by (simp_all add: content_change_handler [OF assms(1-4)] updateContract_def Let_def)

lemma content_change_contracts:
  assumes "msg_type m = ''content_change''" "conn_contractId (vars s w) = Some d" "d \<noteq> 0"
    and "contracts (storage s) d = Some k"
  shows "contracts (storage (on_message w (Some m) now uuid later s)) =
         (contracts (storage s))(d \<mapsto> k\<lparr> content := msg_content m,
            wordCount := Some (case msg_wordCount m of None \<Rightarrow> 0 | Some n \<Rightarrow> n),
            updatedAt := now \<rparr>)"
    and "vars (on_message w (Some m) now uuid later s) = vars s"
  using content_change_handler_contracts [OF _ assms,
      of "\<lparr> frame_data = Some m, frame_now = now, frame_uuid = uuid, frame_later = later \<rparr>"]
  by (simp_all add: on_message_fields)

text \<open>
  Claim C3. Two content_change events for an existing document, handled in the
  order E1, E2 (from connections whose \<^verbatim>\<open>contractId\<close> is that document), leave the
  stored contract with the content of E2, the word count of E2
  (\<^verbatim>\<open>wordCount || 0\<close>) and the time of E2; nothing of E1 remains. This holds when
  they come in separate chunks and when one connection sends both in one chunk.
\<close>

theorem content_change_last_write_wins:
  assumes "contracts (storage s) d = Some k" and "d \<noteq> 0"
    and "conn_contractId (vars s w1) = Some d" and "conn_contractId (vars s w2) = Some d"
    and "msg_type e1 = ''content_change''" and "msg_type e2 = ''content_change''"
  shows "contracts (storage (on_message w2 (Some e2) t2 uuid2 l2
                      (on_message w1 (Some e1) t1 uuid1 l1 s))) d =
         Some (k\<lparr> content := msg_content e2,
                  wordCount := Some (case msg_wordCount e2 of None \<Rightarrow> 0 | Some n \<Rightarrow> n),
                  updatedAt := t2 \<rparr>) \<and>
         contracts (storage (step (Frames w1
             [\<lparr> frame_data = Some e1, frame_now = t1, frame_uuid = uuid1, frame_later = l1 \<rparr>,
              \<lparr> frame_data = Some e2, frame_now = t2, frame_uuid = uuid2, frame_later = l2 \<rparr>]) s)) d =
         Some (k\<lparr> content := msg_content e2,
                  wordCount := Some (case msg_wordCount e2 of None \<Rightarrow> 0 | Some n \<Rightarrow> n),
                  updatedAt := t2 \<rparr>)"
proof -
  let ?s1 = "on_message w1 (Some e1) t1 uuid1 l1 s"
  let ?f1 = "\<lparr> frame_data = Some e1, frame_now = t1, frame_uuid = uuid1, frame_later = l1 \<rparr>"
  let ?f2 = "\<lparr> frame_data = Some e2, frame_now = t2, frame_uuid = uuid2, frame_later = l2 \<rparr>"
  have 1: "contracts (storage ?s1) d = Some (k\<lparr> content := msg_content e1,
            wordCount := Some (case msg_wordCount e1 of None \<Rightarrow> 0 | Some n \<Rightarrow> n),
            updatedAt := t1 \<rparr>)"
    and v: "vars ?s1 = vars s"
    using content_change_contracts [OF assms(5) assms(3) assms(2) assms(1)] by simp_all
  have "conn_contractId (vars ?s1 w2) = Some d" using assms(4) v by simp
  from content_change_contracts(1) [OF assms(6) this assms(2) 1]
  have separate: "contracts (storage (on_message w2 (Some e2) t2 uuid2 l2 ?s1)) d =
         Some (k\<lparr> content := msg_content e2,
                  wordCount := Some (case msg_wordCount e2 of None \<Rightarrow> 0 | Some n \<Rightarrow> n),
                  updatedAt := t2 \<rparr>)"
    by simp
  let ?h1 = "fst (message_handler w1 ?f1 s)"
  have h1: "contracts (storage ?h1) d = Some (k\<lparr> content := msg_content e1,
            wordCount := Some (case msg_wordCount e1 of None \<Rightarrow> 0 | Some n \<Rightarrow> n),
            updatedAt := t1 \<rparr>)"
    and hv: "vars ?h1 = vars s"
    using content_change_handler_contracts [OF _ assms(5) assms(3) assms(2) assms(1), of ?f1]
    by simp_all
  have "conn_contractId (vars ?h1 w1) = Some d" using assms(3) hv by simp
  from content_change_handler_contracts(1) [OF _ assms(6) this assms(2) h1, of ?f2]
  have "contracts (storage (fst (message_handler w1 ?f2 ?h1))) d =
         Some (k\<lparr> content := msg_content e2,
                  wordCount := Some (case msg_wordCount e2 of None \<Rightarrow> 0 | Some n \<Rightarrow> n),
                  updatedAt := t2 \<rparr>)"
    by simp
  then have same: "contracts (storage (step (Frames w1 [?f1, ?f2]) s)) d =
         Some (k\<lparr> content := msg_content e2,
                  wordCount := Some (case msg_wordCount e2 of None \<Rightarrow> 0 | Some n \<Rightarrow> n),
                  updatedAt := t2 \<rparr>)"
    by (simp only: step_Frames_fields) (simp add: split_beta)
  from separate same show ?thesis ..
qed


lemma clients_handler_not_join:
  "\<not> is_join f \<Longrightarrow> clients (fst (message_handler w f s)) = clients s"
  by (rule message_handler_not_join)

lemma clients_handler_join:
  assumes "frame_data f = Some m" and "msg_type m = ''join''"
  shows "clients (fst (message_handler w f s)) =
     (if truthy (msg_userId m) \<and> truthy (msg_contractId m)
      then (case msg_contractId m of
              None \<Rightarrow> clients s
            | Some c \<Rightarrow> (clients s)(c \<mapsto> set_add w (case clients s c of None \<Rightarrow> [] | Some cc \<Rightarrow> cc)))
      else clients s)"
  using assms by (simp add: handler_defs Let_def truthy_def split: option.splits)

lemma subscribed_message_handler:
  assumes "subscribed (fst (message_handler w' f s)) w d"
  shows "subscribed s w d \<or> (w' = w \<and> d \<in> set (frame_joined_docs f))"
proof (cases "is_join f")
  case False
  with assms have "subscribed s w d" by (simp add: subscribed_def clients_handler_not_join)
  then show ?thesis ..
next
  case True
  then obtain m where m: "frame_data f = Some m" "msg_type m = ''join''"
    by (auto simp: is_join_def split: option.splits)
  note cl = clients_handler_join [OF m, of w' s]
  show ?thesis
  proof (cases "truthy (msg_userId m) \<and> truthy (msg_contractId m)")
    case False
    have "clients (fst (message_handler w' f s)) = clients s"
      using False unfolding cl by (cases "truthy (msg_userId m)") simp_all
    with assms have "subscribed s w d" by (simp add: subscribed_def)
    then show ?thesis ..
  next
    case accepted: True
    then obtain c where c: "msg_contractId m = Some c"
      by (cases "msg_contractId m") (simp_all add: truthy_def)
    have cl': "clients (fst (message_handler w' f s)) =
        (clients s)(c \<mapsto> set_add w' (case clients s c of None \<Rightarrow> [] | Some cc \<Rightarrow> cc))"
      unfolding cl using accepted c by simp
    show ?thesis
    proof (cases "d = c \<and> w' = w")
      case True
      with m accepted c show ?thesis by (simp add: frame_joined_docs_def)
    next
      case False
      have "subscribed s w d"
        using assms False unfolding subscribed_def cl'
        by (auto split: option.splits if_splits)
      then show ?thesis ..
    qed
  qed
qed

lemma subscribed_handle_frames:
  "subscribed (fst (handle_frames w' fs s)) w d \<Longrightarrow>
   subscribed s w d \<or> (w' = w \<and> d \<in> set (concat (map frame_joined_docs fs)))"
proof (induction fs arbitrary: s)
  case Nil
  then show ?case by simp
next
  case (Cons f fs)
  from Cons.prems have "subscribed (fst (handle_frames w' fs (fst (message_handler w' f s)))) w d"
    by (simp add: split_beta)
  then have "subscribed (fst (message_handler w' f s)) w d \<or>
      (w' = w \<and> d \<in> set (concat (map frame_joined_docs fs)))"
    by (rule Cons.IH)
  then show ?case using subscribed_message_handler [of w' f s w d] by auto
qed

lemma subscribed_Frames:
  assumes "subscribed (step (Frames w' fs) s) w d"
  shows "subscribed s w d \<or> d \<in> set (joined_docs w [Frames w' fs])"
proof -
  from assms have "subscribed (fst (handle_frames w' fs s)) w d"
    by (simp only: subscribed_def step_Frames_fields)
  from subscribed_handle_frames [OF this] show ?thesis by auto
qed

lemma subscribed_Close:
  assumes "subscribed (step (Close w') s) w d"
  shows "subscribed s w d"
  using assms
  by (auto simp: close_handler_def Let_def subscribed_def set_delete_def
      split: option.splits if_splits)

lemma joined_docs_Cons: "joined_docs w (e # evs) = joined_docs w [e] @ joined_docs w evs"
  by (cases e) simp_all

lemma subscribed_step:
  "subscribed (step e s) w d \<Longrightarrow> subscribed s w d \<or> d \<in> set (joined_docs w [e])"
proof (cases e)
  case (Frames w' fs)
  assume "subscribed (step e s) w d"
  with Frames show ?thesis using subscribed_Frames [of w' fs s w d] by simp
next
  case (Close w')
  assume "subscribed (step e s) w d"
  with Close show ?thesis using subscribed_Close [of w' s w d] by simp
qed

lemma subscribed_fold:
  "subscribed (fold step evs s) w d \<Longrightarrow> subscribed s w d \<or> d \<in> set (joined_docs w evs)"
proof (induction evs arbitrary: s)
  case Nil
  then show ?case by simp
next
  case (Cons e evs)
  from Cons.prems have "subscribed (fold step evs (step e s)) w d" by simp
  then have "subscribed (step e s) w d \<or> d \<in> set (joined_docs w evs)" by (rule Cons.IH)
  then show ?case
    using subscribed_step [of e s w d] joined_docs_Cons [of w e evs] by auto
qed

lemma subscribed_run:
  "subscribed (run evs (init st)) w d \<Longrightarrow> d \<in> set (joined_docs w evs)"
  using subscribed_fold [of evs "init st" w d] by (simp add: run_def init_def subscribed_def)

text \<open>
  Claim C4, as the code has it. After any run of the server no stored subscription
  set is empty, and a connection whose accepted joins all name the same document
  is in the subscription set of at most one document.
\<close>

theorem subscription_sets:
  "(\<forall>d cc. clients (run evs (init st)) d = Some cc \<longrightarrow> cc \<noteq> []) \<and>
   ((\<forall>d d'. d \<in> set (joined_docs w evs) \<and> d' \<in> set (joined_docs w evs) \<longrightarrow> d = d') \<longrightarrow>
    (\<forall>d d'. subscribed (run evs (init st)) w d \<and> subscribed (run evs (init st)) w d' \<longrightarrow> d = d'))"
proof (intro conjI allI impI)
  fix d cc assume "clients (run evs (init st)) d = Some cc"
  with clients_inv_run [of evs st] show "cc \<noteq> []" by (simp add: clients_inv_def)
next
  fix d d'
  assume one: "\<forall>d d'. d \<in> set (joined_docs w evs) \<and> d' \<in> set (joined_docs w evs) \<longrightarrow> d = d'"
    and sub: "subscribed (run evs (init st)) w d \<and> subscribed (run evs (init st)) w d'"
  from sub have "d \<in> set (joined_docs w evs)" "d' \<in> set (joined_docs w evs)"
    by (auto dest: subscribed_run)
  with one show "d = d'" by blast
qed


lemma handle_frames_Cons:
  "fst (handle_frames w (f # fs) s) = fst (handle_frames w fs (fst (message_handler w f s)))"
  "snd (handle_frames w (f # fs) s) =
     snd (message_handler w f s) @ snd (handle_frames w fs (fst (message_handler w f s)))"
  by (simp_all add: split_beta)

text \<open>
  Claim C10, as the code has it. A join that carries a \<^verbatim>\<open>contractId\<close> but no
  \<^verbatim>\<open>userId\<close> is rejected, without continuation, yet the connection's \<^verbatim>\<open>contractId\<close>
  is set. The handler of a content_change that follows on the same connection
  replaces the content of the stored contract. When no join follows the
  content_change in its chunk, whether the rejected join came in an earlier chunk or
  heads the same chunk, the first message the chunk sends to each open subscriber
  of the document other than the sender is the content_update without \<^verbatim>\<open>userId\<close>,
  stamped with the clock reading taken after the \<^verbatim>\<open>await\<close>; the broadcasts of the
  later frames follow it, and no other connection is sent anything but the sender.
\<close>

theorem content_change_after_rejected_join:
  assumes "s = run evs (init st)"
    and "msg_type j = ''join''" and "msg_userId j = None" and "msg_contractId j = Some d"
    and "d \<noteq> 0"
    and "msg_type e = ''content_change''"
    and "contracts (storage s) d = Some k"
    and "frame_data fj = Some j" and "frame_data fe = Some e"
    and "\<forall>g \<in> set rest. \<not> is_join g"
  shows "message_handler w fj s =
           (s\<lparr> vars := (vars s)(w := \<lparr> conn_userId = None, conn_contractId = Some d \<rparr>) \<rparr>, []) \<and>
         contracts (storage (fst (message_handler w fe (fst (message_handler w fj s))))) d =
           Some (k\<lparr> content := msg_content e,
                    wordCount := Some (case msg_wordCount e of None \<Rightarrow> 0 | Some n \<Rightarrow> n),
                    updatedAt := frame_now fe \<rparr>) \<and>
         (\<forall>c. c \<noteq> w \<longrightarrow>
            sent (step (Frames w (fe # rest)) (step (Frames w [fj]) s)) c =
              sent s c @
                (if subscribed s c d \<and> readyState s c = OPEN
                 then content_update_msg (msg_content e) None (frame_later fe) #
                      map (continuation_message \<lparr> conn_userId = None, conn_contractId = Some d \<rparr>)
                        (snd (handle_frames w rest
                                (fst (message_handler w fe (fst (message_handler w fj s))))))
                 else [])) \<and>
         (\<forall>c. c \<noteq> w \<longrightarrow>
            sent (step (Frames w (fj # fe # rest)) s) c =
              sent s c @
                (if subscribed s c d \<and> readyState s c = OPEN
                 then content_update_msg (msg_content e) None (frame_later fe) #
                      map (continuation_message \<lparr> conn_userId = None, conn_contractId = Some d \<rparr>)
                        (snd (handle_frames w rest
                                (fst (message_handler w fe (fst (message_handler w fj s))))))
                 else []))"
proof -
  let ?v = "\<lparr> conn_userId = None, conn_contractId = Some d \<rparr>"
  let ?sj = "s\<lparr> vars := (vars s)(w := ?v) \<rparr>"
  have inv: "clients_inv s" using assms(1) by (simp add: clients_inv_run)
  have hj: "message_handler w fj s = (?sj, [])"
    using join_rejected_handler [OF assms(8) assms(2), of w s] assms(3,4) by simp
  have invj: "clients_inv ?sj" using inv by (simp add: clients_inv_def)
  have cd: "conn_contractId (vars ?sj w) = Some d" by simp
  have kj: "contracts (storage ?sj) d = Some k" using assms(7) by simp
  let ?se = "fst (message_handler w fe ?sj)"
  note he = content_change_handler [OF assms(9) assms(6) cd assms(5)]
  have store: "contracts (storage ?se) d =
           Some (k\<lparr> content := msg_content e,
                    wordCount := Some (case msg_wordCount e of None \<Rightarrow> 0 | Some n \<Rightarrow> n),
                    updatedAt := frame_now fe \<rparr>)"
    using content_change_handler_contracts(1) [OF assms(9) assms(6) cd assms(5) kj] by simp
  have ve: "vars ?se w = ?v" and sube: "subscribed ?se = subscribed s"
    and qe: "snd (message_handler w fe ?sj) = [content_change_rest w e (frame_later fe)]"
    by (simp_all add: he subscribed_def fun_eq_iff)
  have nje: "\<not> is_join fe" using assms(6,9) by (simp add: is_join_def)
  have stepj: "step (Frames w [fj]) s = ?sj" by (simp add: hj)
  have separate: "sent (step (Frames w (fe # rest)) (step (Frames w [fj]) s)) c =
              sent s c @
                (if subscribed s c d \<and> readyState s c = OPEN
                 then content_update_msg (msg_content e) None (frame_later fe) #
                      map (continuation_message ?v) (snd (handle_frames w rest ?se))
                 else [])" if "c \<noteq> w" for c
    using chunk_sent [OF invj assms(10), where w = w and f = fe and c = c] that
    by (simp only: stepj handle_frames_Cons ve sube qe) simp
  have subj: "subscribed ?sj = subscribed s" by (simp add: subscribed_def fun_eq_iff)
  have nj2: "\<forall>g \<in> set (fe # rest). \<not> is_join g" using nje assms(10) by simp
  have same: "sent (step (Frames w (fj # fe # rest)) s) c =
              sent s c @
                (if subscribed s c d \<and> readyState s c = OPEN
                 then content_update_msg (msg_content e) None (frame_later fe) #
                      map (continuation_message ?v) (snd (handle_frames w rest ?se))
                 else [])" if "c \<noteq> w" for c
    using chunk_sent [OF inv nj2, where w = w and f = fj and c = c] that
    by (simp only: handle_frames_Cons hj fst_conv snd_conv qe subj) simp
  show ?thesis
    using hj store separate same by (simp only: hj fst_conv) simp
qed

subsection \<open>Examples for the router\<close>

text \<open>
  Connection 0 is still in the subscription set of contract 7 after its close
  (its \<^verbatim>\<open>userId\<close> was undefined then, so the close handler skipped the cleanup), and
  it is closed. A cursor_move of connection 1 reaches connection 2 and not
  connection 0.
\<close>

theorem stale_subscriber_not_served:
  "subscribed (run stale_subscriber_events (init example_store)) 0 7 \<and>
   conn_userId (vars (run stale_subscriber_events (init example_store)) 1) = Some 2 \<and>
   conn_contractId (vars (run stale_subscriber_events (init example_store)) 1) = Some 7 \<and>
   sent (on_message 1 (Some (cursor_move_message \<lparr> line = 2, character = 5 \<rparr>)) 50 ''e'' 51
          (run stale_subscriber_events (init example_store))) 2 =
     sent (run stale_subscriber_events (init example_store)) 2 @
       [cursor_update_msg (Some 2) (Some \<lparr> line = 2, character = 5 \<rparr>)] \<and>
   sent (on_message 1 (Some (cursor_move_message \<lparr> line = 2, character = 5 \<rparr>)) 50 ''e'' 51
          (run stale_subscriber_events (init example_store))) 0 =
     sent (run stale_subscriber_events (init example_store)) 0 \<and>
   cursor_update_msg (Some 2) (Some \<lparr> line = 2, character = 5 \<rparr>) \<notin>
     set (sent (on_message 1 (Some (cursor_move_message \<lparr> line = 2, character = 5 \<rparr>)) 50 ''e'' 51
            (run stale_subscriber_events (init example_store))) 0)"
  by code_simp

text \<open>
  Why the chunk matters: when connection 0 sends a join for contract 7 and a join
  for contract 8 in one chunk, both continuations run after both assignments, so
  the subscriber of contract 8 is sent two messages and the subscriber of contract
  7 none.
\<close>

lemma two_joins_in_one_chunk:
  "subscribed (run one_on_each_events (init example_store)) 1 7 \<and>
   sent (step two_joins_one_chunk (run one_on_each_events (init example_store))) 1 =
     sent (run one_on_each_events (init example_store)) 1 \<and>
   sent (step two_joins_one_chunk (run one_on_each_events (init example_store))) 2 =
     sent (run one_on_each_events (init example_store)) 2 @
       [presence_update_msg (Some 1) (Some \<lparr> line = 0, character = 0 \<rparr>) joined,
        presence_update_msg (Some 1) (Some \<lparr> line = 0, character = 0 \<rparr>) joined]"
  by code_simp

text \<open>
  Connection 0 sends, in one chunk, a join for contract 7 without \<^verbatim>\<open>userId\<close>, a
  content change and a join for contract 8 as user 9. Contract 7 is updated, but
  the content_update goes to the subscriber of contract 8, with \<^verbatim>\<open>userId\<close> 9; the
  subscriber of contract 7, which is open, is sent nothing.
\<close>

theorem later_join_retargets_content_update:
  "subscribed (run one_on_each_events (init example_store)) 1 7 \<and>
   readyState (run one_on_each_events (init example_store)) 1 = OPEN \<and>
   map_option content (contracts (storage (step content_change_then_join_chunk
      (run one_on_each_events (init example_store)))) 7) = Some (Some ''new'') \<and>
   sent (step content_change_then_join_chunk (run one_on_each_events (init example_store))) 1 =
     sent (run one_on_each_events (init example_store)) 1 \<and>
   sent (step content_change_then_join_chunk (run one_on_each_events (init example_store))) 2 =
     sent (run one_on_each_events (init example_store)) 2 @
       [content_update_msg (Some ''new'') (Some 9) 44,
        presence_update_msg (Some 9) (Some \<lparr> line = 0, character = 0 \<rparr>) joined]"
  by code_simp

theorem join_missing_field_dropped_witness:
  "msg_type ((join_message 1 7)\<lparr> msg_userId := None \<rparr>) = ''join'' \<and>
   msg_userId ((join_message 1 7)\<lparr> msg_userId := None \<rparr>) = None \<and>
   clients (on_message 0 (Some ((join_message 1 7)\<lparr> msg_userId := None \<rparr>)) 40 ''d'' 41
             (run two_subscribers_events (init example_store))) =
     clients (run two_subscribers_events (init example_store)) \<and>
   storage (on_message 0 (Some ((join_message 1 7)\<lparr> msg_userId := None \<rparr>)) 40 ''d'' 41
             (run two_subscribers_events (init example_store))) =
     storage (run two_subscribers_events (init example_store)) \<and>
   sent (on_message 0 (Some ((join_message 1 7)\<lparr> msg_userId := None \<rparr>)) 40 ''d'' 41
          (run two_subscribers_events (init example_store))) =
     sent (run two_subscribers_events (init example_store)) \<and>
   frame_data rejected_join_frame = Some ((join_message 1 7)\<lparr> msg_userId := None \<rparr>) \<and>
   snd (message_handler 0 rejected_join_frame
          (run two_subscribers_events (init example_store))) = []"
proof -
  let ?m = "(join_message 1 7)\<lparr> msg_userId := None \<rparr>"
  have t: "msg_type ?m = ''join''" and u: "msg_userId ?m = None"
    by (simp_all add: join_message_def)
  from u have u': "msg_userId ?m = None \<or> msg_contractId ?m = None" ..
  have fd: "frame_data rejected_join_frame = Some ?m" by (simp add: rejected_join_frame_def)
  show ?thesis
    using t u fd join_missing_field_dropped [OF t u', where w = 0 and now = 40 and uuid = "''d''"
        and later = 41 and s = "run two_subscribers_events (init example_store)"
        and f = rejected_join_frame]
    by simp
qed


theorem content_change_last_write_wins_witness:
  "contracts (storage (run two_subscribers_events (init example_store))) 7 = Some example_contract \<and>
   conn_contractId (vars (run two_subscribers_events (init example_store)) 1) = Some 7 \<and>
   conn_contractId (vars (run two_subscribers_events (init example_store)) 2) = Some 7 \<and>
   msg_type (content_change_message ''first'' 1) = ''content_change'' \<and>
   msg_type (content_change_message ''second'' 2) = ''content_change'' \<and>
   contracts (storage (on_message 2 (Some (content_change_message ''second'' 2)) 60 ''f'' 61
                (on_message 1 (Some (content_change_message ''first'' 1)) 50 ''e'' 51
                   (run two_subscribers_events (init example_store))))) 7 =
     Some (example_contract\<lparr> content := Some ''second'', wordCount := Some 2, updatedAt := 60 \<rparr>)"
proof -
  let ?s = "run two_subscribers_events (init example_store)"
  have k: "contracts (storage ?s) 7 = Some example_contract" by code_simp
  have d: "(7::int) \<noteq> 0" by simp
  have v1: "conn_contractId (vars ?s 1) = Some 7" and v2: "conn_contractId (vars ?s 2) = Some 7"
    by code_simp+
  have e1: "msg_type (content_change_message ''first'' 1) = ''content_change''"
    and e2: "msg_type (content_change_message ''second'' 2) = ''content_change''"
    by (simp_all add: content_change_message_def)
  show ?thesis
    using k v1 v2 e1 e2 content_change_last_write_wins [OF k d v1 v2 e1 e2, where ?t2.0 = 60
        and ?uuid2.0 = "''f''" and ?l2.0 = 61 and ?t1.0 = 50 and ?uuid1.0 = "''e''" and ?l1.0 = 51]
    by (simp add: content_change_message_def)
qed


text \<open>
  Connection 0 joins contract 7 and then contract 8: it is in both subscription sets.
\<close>

theorem rejoin_in_two_sets:
  "subscribed (run two_joins_events (init example_store)) 0 7 \<and>
   subscribed (run two_joins_events (init example_store)) 0 8"
  by code_simp

theorem subscription_sets_witness:
  "clients (run stale_subscriber_events (init example_store)) 7 = Some [0, 1, 2] \<and>
   [0, 1, 2 :: nat] \<noteq> [] \<and>
   joined_docs 0 stale_subscriber_events = [7] \<and>
   subscribed (run stale_subscriber_events (init example_store)) 0 7 \<and>
   \<not> subscribed (run stale_subscriber_events (init example_store)) 0 8"
proof -
  let ?s = "run stale_subscriber_events (init example_store)"
  have c: "clients ?s 7 = Some [0, 1, 2]" by code_simp
  have j: "joined_docs 0 stale_subscriber_events = [7]" by code_simp
  have s7: "subscribed ?s 0 7" by code_simp
  note T = subscription_sets [of stale_subscriber_events example_store 0]
  from T c have ne: "[0, 1, 2 :: nat] \<noteq> []" by blast
  from j have "\<forall>d d'. d \<in> set (joined_docs 0 stale_subscriber_events) \<and>
      d' \<in> set (joined_docs 0 stale_subscriber_events) \<longrightarrow> d = d'" by simp
  with T have "\<forall>d d'. subscribed ?s 0 d \<and> subscribed ?s 0 d' \<longrightarrow> d = d'" by blast
  with s7 have "\<not> subscribed ?s 0 8" by fastforce
  with c ne j s7 show ?thesis by simp
qed



theorem broadcast_to_open_subscribers_except_sender_witness:
  "msg_type (join_message 1 7) = ''join'' \<and> msg_userId (join_message 1 7) = Some 1 \<and>
   msg_contractId (join_message 1 7) = Some 7 \<and>
   sent (on_message 0 (Some (join_message 1 7)) 40 ''d'' 41
          (run two_subscribers_events (init example_store))) 1 =
     sent (run two_subscribers_events (init example_store)) 1 @
       [presence_update_msg (Some 1) (Some \<lparr> line = 0, character = 0 \<rparr>) joined] \<and>
   sent (on_message 0 (Some (join_message 1 7)) 40 ''d'' 41
          (run two_subscribers_events (init example_store))) 0 =
     sent (run two_subscribers_events (init example_store)) 0 \<and>
   msg_type (cursor_move_message \<lparr> line = 2, character = 5 \<rparr>) = ''cursor_move'' \<and>
   conn_userId (vars (run two_subscribers_events (init example_store)) 1) = Some 2 \<and>
   conn_contractId (vars (run two_subscribers_events (init example_store)) 1) = Some 7 \<and>
   sent (on_message 1 (Some (cursor_move_message \<lparr> line = 2, character = 5 \<rparr>)) 40 ''d'' 41
          (run two_subscribers_events (init example_store))) 2 =
     sent (run two_subscribers_events (init example_store)) 2 @
       [cursor_update_msg (Some 2) (Some \<lparr> line = 2, character = 5 \<rparr>)] \<and>
   sent (on_message 1 (Some (cursor_move_message \<lparr> line = 2, character = 5 \<rparr>)) 40 ''d'' 41
          (run two_subscribers_events (init example_store))) 1 =
     sent (run two_subscribers_events (init example_store)) 1 \<and>
   msg_type (content_change_message ''new'' 1) = ''content_change'' \<and>
   sent (on_message 1 (Some (content_change_message ''new'' 1)) 40 ''d'' 41
          (run two_subscribers_events (init example_store))) 2 =
     sent (run two_subscribers_events (init example_store)) 2 @
       [content_update_msg (Some ''new'') (Some 2) 41] \<and>
   sent (on_message 1 (Some (content_change_message ''new'' 1)) 40 ''d'' 41
          (run two_subscribers_events (init example_store))) 1 =
     sent (run two_subscribers_events (init example_store)) 1 \<and>
   \<not> is_join cursor_frame \<and>
   sent (step (Frames 0 [join_frame, cursor_frame])
          (run two_subscribers_events (init example_store))) 2 =
     sent (run two_subscribers_events (init example_store)) 2 @
       [presence_update_msg (Some 1) (Some \<lparr> line = 0, character = 0 \<rparr>) joined,
        cursor_update_msg (Some 1) (Some \<lparr> line = 2, character = 5 \<rparr>)] \<and>
   sent (step (Frames 0 [join_frame, cursor_frame])
          (run two_subscribers_events (init example_store))) 0 =
     sent (run two_subscribers_events (init example_store)) 0"
proof -
  let ?s = "run two_subscribers_events (init example_store)"
  let ?j = "join_message 1 7"
  let ?m = "cursor_move_message \<lparr> line = 2, character = 5 \<rparr>"
  let ?e = "content_change_message ''new'' 1"
  have hj: "msg_type ?j = ''join'' \<and> msg_userId ?j = Some 1 \<and> (1::int) \<noteq> 0 \<and>
            msg_contractId ?j = Some 7 \<and> (7::int) \<noteq> 0"
    by (simp add: join_message_def)
  have hv: "conn_userId (vars ?s 1) = Some 2" "conn_contractId (vars ?s 1) = Some 7"
    by code_simp+
  have hm: "msg_type ?m = ''cursor_move''" by (simp add: cursor_move_message_def)
  have he: "msg_type ?e = ''content_change''" "msg_content ?e = Some ''new''"
    by (simp_all add: content_change_message_def)
  have sub: "subscribed ?s 1 7" "subscribed ?s 2 7"
    "subscribed (on_message 0 (Some ?j) 40 ''d'' 41 ?s) 1 7"
    by code_simp+
  have rs: "readyState ?s 1 = OPEN" "readyState ?s 2 = OPEN" by code_simp+
  have pos: "msg_position ?j = Some \<lparr> line = 0, character = 0 \<rparr>"
    "msg_position ?m = Some \<lparr> line = 2, character = 5 \<rparr>"
    by (simp_all add: join_message_def cursor_move_message_def)
  have nj: "\<not> is_join cursor_frame" by code_simp
  then have nj': "\<forall>g \<in> set [cursor_frame]. \<not> is_join g" by simp
  have chunk: "conn_contractId (vars (fst (message_handler 0 join_frame ?s)) 0) = Some 7"
    "subscribed (fst (message_handler 0 join_frame ?s)) 2 7"
    "map (continuation_message (vars (fst (message_handler 0 join_frame ?s)) 0))
       (snd (handle_frames 0 [join_frame, cursor_frame] ?s)) =
     [presence_update_msg (Some 1) (Some \<lparr> line = 0, character = 0 \<rparr>) joined,
      cursor_update_msg (Some 1) (Some \<lparr> line = 2, character = 5 \<rparr>)]"
    "length (filter (\<lambda>g. frame_data g = None) [join_frame, cursor_frame]) = 0"
    by code_simp+
  note J = broadcast_to_open_subscribers_except_sender
    [OF refl, where m = ?j and u = 1 and d = 7 and w = 0 and now = 40 and uuid = "''d''"
      and later = 41 and evs = two_subscribers_events and st = example_store
      and f = join_frame and rest = "[cursor_frame]" and fs = "[join_frame, cursor_frame]"]
  note M = broadcast_to_open_subscribers_except_sender
    [OF refl, where m = ?m and u = 2 and d = 7 and w = 1 and now = 40 and uuid = "''d''"
      and later = 41 and evs = two_subscribers_events and st = example_store]
  note E = broadcast_to_open_subscribers_except_sender
    [OF refl, where m = ?e and u = 2 and d = 7 and w = 1 and now = 40 and uuid = "''d''"
      and later = 41 and evs = two_subscribers_events and st = example_store]
  have hM: "msg_type ?m = ''cursor_move'' \<and> conn_userId (vars ?s 1) = Some 2 \<and> (2::int) \<noteq> 0 \<and>
      conn_contractId (vars ?s 1) = Some 7 \<and> (7::int) \<noteq> 0"
    using hm hv by simp
  have hE: "msg_type ?e = ''content_change'' \<and> conn_contractId (vars ?s 1) = Some 7 \<and> (7::int) \<noteq> 0"
    using he hv by simp
  have neq: "(2::nat) \<noteq> 0" by simp
  note J' = J [THEN conjunct1, rule_format, OF hj]
  note C' = J [THEN conjunct2, THEN conjunct2, THEN conjunct2, THEN conjunct1, THEN mp, OF nj',
    THEN spec, THEN mp, OF neq]
  note B' = J [THEN conjunct2, THEN conjunct2, THEN conjunct2, THEN conjunct2]
  note M' = M [THEN conjunct2, THEN conjunct1, rule_format, OF hM]
  note E' = E [THEN conjunct2, THEN conjunct2, THEN conjunct1, rule_format, OF hE]
  have C'': "sent (step (Frames 0 [join_frame, cursor_frame]) ?s) 2 = sent ?s 2 @
       [presence_update_msg (Some 1) (Some \<lparr> line = 0, character = 0 \<rparr>) joined,
        cursor_update_msg (Some 1) (Some \<lparr> line = 2, character = 5 \<rparr>)]"
    by (simp add: C' chunk rs del: step.simps handle_frames.simps)
  have B'': "sent (step (Frames 0 [join_frame, cursor_frame]) ?s) 0 = sent ?s 0"
  proof -
    have "replicate (length (filter (\<lambda>g. frame_data g = None) [join_frame, cursor_frame]))
        (error_msg ''Invalid message format'') = []"
      by (simp add: join_frame_def cursor_frame_def)
    then show ?thesis by (simp only: B' append_Nil2)
  qed
  show ?thesis
    using hj hv hm he J' [of 1] J' [of 0] M' [of 2] M' [of 1] E' [of 2] E' [of 1] sub rs pos
      nj C'' B''
    by (simp del: step.simps handle_frames.simps)
qed

theorem content_change_after_rejected_join_witness:
  "msg_type ((join_message 1 7)\<lparr> msg_userId := None \<rparr>) = ''join'' \<and>
   msg_userId ((join_message 1 7)\<lparr> msg_userId := None \<rparr>) = None \<and>
   msg_contractId ((join_message 1 7)\<lparr> msg_userId := None \<rparr>) = Some 7 \<and>
   msg_type (content_change_message ''new'' 1) = ''content_change'' \<and>
   contracts (storage (run two_subscribers_events (init example_store))) 7 = Some example_contract \<and>
   frame_data rejected_join_frame = Some ((join_message 1 7)\<lparr> msg_userId := None \<rparr>) \<and>
   frame_data content_frame = Some (content_change_message ''new'' 1) \<and>
   \<not> is_join cursor_frame \<and>
   conn_contractId (vars (fst (message_handler 0 rejected_join_frame
      (run two_subscribers_events (init example_store)))) 0) = Some 7 \<and>
   contracts (storage (fst (message_handler 0 content_frame
      (fst (message_handler 0 rejected_join_frame
         (run two_subscribers_events (init example_store))))))) 7 =
     Some (example_contract\<lparr> content := Some ''new'', wordCount := Some 1, updatedAt := 42 \<rparr>) \<and>
   sent (step (Frames 0 [content_frame, cursor_frame])
      (step (Frames 0 [rejected_join_frame])
         (run two_subscribers_events (init example_store)))) 2 =
     sent (run two_subscribers_events (init example_store)) 2 @
       [content_update_msg (Some ''new'') None 46] \<and>
   sent (step (Frames 0 [rejected_join_frame, content_frame, cursor_frame])
      (run two_subscribers_events (init example_store))) 2 =
     sent (run two_subscribers_events (init example_store)) 2 @
       [content_update_msg (Some ''new'') None 46]"
proof -
  let ?s = "run two_subscribers_events (init example_store)"
  let ?j = "(join_message 1 7)\<lparr> msg_userId := None \<rparr>"
  let ?e = "content_change_message ''new'' 1"
  have j: "msg_type ?j = ''join''" "msg_userId ?j = None" "msg_contractId ?j = Some 7"
    by (simp_all add: join_message_def)
  have d: "(7::int) \<noteq> 0" by simp
  have e: "msg_type ?e = ''content_change''" by (simp add: content_change_message_def)
  have k: "contracts (storage ?s) 7 = Some example_contract" by code_simp
  have fj: "frame_data rejected_join_frame = Some ?j" by (simp add: rejected_join_frame_def)
  have fe: "frame_data content_frame = Some ?e" by (simp add: content_frame_def)
  have nj: "\<not> is_join cursor_frame" by code_simp
  then have nj': "\<forall>g \<in> set [cursor_frame]. \<not> is_join g" by simp
  have sub: "subscribed ?s 2 7" "readyState ?s 2 = OPEN" by code_simp+
  have rest: "snd (handle_frames 0 [cursor_frame]
      (fst (message_handler 0 content_frame (fst (message_handler 0 rejected_join_frame ?s))))) = []"
    by code_simp
  have fields: "msg_content ?e = Some ''new''" "frame_later content_frame = 46"
    "frame_now content_frame = 42" "msg_wordCount ?e = Some 1"
    by (simp_all add: content_change_message_def content_frame_def)
  note T = content_change_after_rejected_join [OF refl j d e k fj fe nj', where w = 0]
  have neq: "(2::nat) \<noteq> 0" by simp
  note T1 = T [THEN conjunct1]
  note T2 = T [THEN conjunct2, THEN conjunct1]
  note T3 = T [THEN conjunct2, THEN conjunct2, THEN conjunct1, rule_format, OF neq]
  note T4 = T [THEN conjunct2, THEN conjunct2, THEN conjunct2, rule_format, OF neq]
  from T1 have v: "conn_contractId (vars (fst (message_handler 0 rejected_join_frame ?s)) 0) = Some 7"
    by simp
  from T2 have st: "contracts (storage (fst (message_handler 0 content_frame
      (fst (message_handler 0 rejected_join_frame ?s))))) 7 =
     Some (example_contract\<lparr> content := Some ''new'', wordCount := Some 1, updatedAt := 42 \<rparr>)"
    by (simp add: fields)
  have sep: "sent (step (Frames 0 [content_frame, cursor_frame])
      (step (Frames 0 [rejected_join_frame]) ?s)) 2 =
     sent ?s 2 @ [content_update_msg (Some ''new'') None 46]"
    by (simp add: T3 rest sub fields del: step.simps handle_frames.simps)
  have same: "sent (step (Frames 0 [rejected_join_frame, content_frame, cursor_frame]) ?s) 2 =
     sent ?s 2 @ [content_update_msg (Some ''new'') None 46]"
    by (simp add: T4 rest sub fields del: step.simps handle_frames.simps)
  from j e k fj fe nj v st sep same show ?thesis by (simp del: step.simps handle_frames.simps)
qed

section \<open>Properties of the channel manager\<close>

lemma failed_round_first:
  "failed_round (connect u d new_WebSocketManager) = after_failures u d 1"
  by (simp add: failed_round_def timeout_def connect_def new_WebSocketManager_def
      transport_close_def onclose_def attemptReconnect_def set_readyState_def Let_def
      after_failures_def closed_socket_def)

lemma replicate_close_last:
  "(replicate n a @ [b])[n := a] = replicate (Suc n) a"
  by (simp add: list_update_append replicate_append_same)

lemma failed_round_retry:
  assumes "1 \<le> n" "n \<le> 4"
  shows "failed_round (after_failures u d n) = after_failures u d (Suc n)"
  using assms
  by (simp add: failed_round_def timeout_def connect_def
      transport_close_def onclose_def attemptReconnect_def set_readyState_def Let_def
      after_failures_def closed_socket_def nth_append replicate_close_last)

lemma failed_round_last:
  "failed_round (after_failures u d 5) = after_failures u d 6"
  by (simp add: failed_round_def timeout_def connect_def
      transport_close_def onclose_def attemptReconnect_def set_readyState_def Let_def
      after_failures_def closed_socket_def nth_append replicate_close_last [of 5, simplified])

lemma failed_round_exhausted:
  assumes "6 \<le> n"
  shows "failed_round (after_failures u d n) = after_failures u d (Suc n)"
  using assms
  by (simp add: failed_round_def timeout_def transport_close_def after_failures_def closed_socket_def)

lemma failed_rounds:
  "(failed_round ^^ n) (connect u d new_WebSocketManager) = after_failures u d n"
proof (induction n)
  case 0
  show ?case by (simp add: after_failures_def)
next
  case (Suc n)
  then have step: "(failed_round ^^ Suc n) (connect u d new_WebSocketManager) =
      failed_round (after_failures u d n)" by simp
  consider "n = 0" | "1 \<le> n \<and> n \<le> 4" | "n = 5" | "6 \<le> n" by linarith
  then show ?case
  proof cases
    case 1
    then have "failed_round (after_failures u d n) = after_failures u d (Suc n)"
      by (simp add: failed_round_first after_failures_def)
    with step show ?thesis by simp
  next
    case 2
    then have "failed_round (after_failures u d n) = after_failures u d (Suc n)"
      by (simp add: failed_round_retry)
    with step show ?thesis by simp
  next
    case 3
    then have "failed_round (after_failures u d n) = after_failures u d (Suc n)"
      by (simp add: failed_round_last)
    with step show ?thesis by simp
  next
    case 4
    then have "failed_round (after_failures u d n) = after_failures u d (Suc n)"
      by (simp add: failed_round_exhausted)
    with step show ?thesis by simp
  qed
qed


lemma attemptReconnect_within:
  "reconnectAttempts c < maxReconnectAttempts c \<Longrightarrow>
   attemptReconnect u d c =
     c\<lparr> reconnectAttempts := reconnectAttempts c + 1,
        timers := timers c @ [(reconnectDelay c * (reconnectAttempts c + 1), u, d)] \<rparr>"
  by (simp add: attemptReconnect_def Let_def)

lemma attemptReconnect_exhausted:
  "\<not> reconnectAttempts c < maxReconnectAttempts c \<Longrightarrow> attemptReconnect u d c = c"
  by (simp add: attemptReconnect_def)

lemma send_reconnectAttempts [simp]: "reconnectAttempts (send m c) = reconnectAttempts c"
  by (simp add: send_def split: option.splits)

lemma transport_open_resets:
  "i < length (sockets c) \<and> sock_readyState (sockets c ! i) = CONNECTING \<Longrightarrow>
   reconnectAttempts (transport_open i c) = 0"
  by (simp add: transport_open_def onopen_def)

lemma terminal_after_budget:
  assumes "5 < n"
  shows "(\<forall>sk \<in> set (sockets (after_failures u d n)). sock_readyState sk = CLOSED)"
    and "transport_open i (after_failures u d n) = after_failures u d n"
    and "transport_close i (after_failures u d n) = after_failures u d n"
    and "timeout k (after_failures u d n) = after_failures u d n"
  using assms
  by (auto simp: after_failures_def closed_socket_def transport_open_def transport_close_def
      timeout_def)

text \<open>
  Claim C6. \<^verbatim>\<open>attemptReconnect\<close> below the maximum raises the counter by one and
  schedules \<^verbatim>\<open>connect\<close> after the base delay times the new counter; at the maximum
  it does nothing. A socket that opens resets the counter to zero. For a new
  manager (maximum 5, base 1000 ms) after \<open>n\<close> failed rounds in a row: the counter is
  \<open>min n 5\<close>; for \<open>1 \<le> n \<le> 5\<close> exactly one timer is pending, with delay \<open>n * 1000\<close>; at
  most six sockets were ever created (the first and five retries); and once the
  fifth retry has failed nothing is pending, every socket is closed and no
  transport or timer event changes the state.
\<close>

theorem reconnect_schedule:
  "(reconnectAttempts c < maxReconnectAttempts c \<longrightarrow>
      attemptReconnect u d c =
        c\<lparr> reconnectAttempts := reconnectAttempts c + 1,
           timers := timers c @ [(reconnectDelay c * (reconnectAttempts c + 1), u, d)] \<rparr>) \<and>
   (\<not> reconnectAttempts c < maxReconnectAttempts c \<longrightarrow> attemptReconnect u d c = c) \<and>
   (i < length (sockets c) \<and> sock_readyState (sockets c ! i) = CONNECTING \<longrightarrow>
      reconnectAttempts (transport_open i c) = 0) \<and>
   reconnectAttempts ((failed_round ^^ n) (connect u d new_WebSocketManager)) = min n 5 \<and>
   timers ((failed_round ^^ n) (connect u d new_WebSocketManager)) =
     (if 1 \<le> n \<and> n \<le> 5 then [(n * 1000, u, d)] else []) \<and>
   length (sockets ((failed_round ^^ n) (connect u d new_WebSocketManager))) \<le> 6 \<and>
   (5 < n \<longrightarrow>
      (\<forall>sk \<in> set (sockets ((failed_round ^^ n) (connect u d new_WebSocketManager))).
          sock_readyState sk = CLOSED) \<and>
      (\<forall>j. transport_open j ((failed_round ^^ n) (connect u d new_WebSocketManager)) =
            (failed_round ^^ n) (connect u d new_WebSocketManager)) \<and>
      (\<forall>j. transport_close j ((failed_round ^^ n) (connect u d new_WebSocketManager)) =
            (failed_round ^^ n) (connect u d new_WebSocketManager)) \<and>
      (\<forall>k. timeout k ((failed_round ^^ n) (connect u d new_WebSocketManager)) =
            (failed_round ^^ n) (connect u d new_WebSocketManager)))"
proof -
  have a: "reconnectAttempts (after_failures u d n) = min n 5"
    by (simp add: after_failures_def connect_def new_WebSocketManager_def)
  have t: "timers (after_failures u d n) = (if 1 \<le> n \<and> n \<le> 5 then [(n * 1000, u, d)] else [])"
    by (simp add: after_failures_def connect_def new_WebSocketManager_def)
  have l: "length (sockets (after_failures u d n)) \<le> 6"
    by (simp add: after_failures_def connect_def new_WebSocketManager_def)
  show ?thesis
    unfolding failed_rounds
    using a t l terminal_after_budget [where n = n and u = u and d = d]
      attemptReconnect_within [of c u d] attemptReconnect_exhausted [of c u d]
      transport_open_resets [of i c]
    by blast
qed


theorem reconnect_schedule_witness:
  "reconnectAttempts (connect 1 7 new_WebSocketManager) <
     maxReconnectAttempts (connect 1 7 new_WebSocketManager) \<and>
   timers (attemptReconnect 1 7 (connect 1 7 new_WebSocketManager)) = [(1000, 1, 7)] \<and>
   \<not> reconnectAttempts ((failed_round ^^ 6) (connect 1 7 new_WebSocketManager)) <
       maxReconnectAttempts ((failed_round ^^ 6) (connect 1 7 new_WebSocketManager)) \<and>
   attemptReconnect 1 7 ((failed_round ^^ 6) (connect 1 7 new_WebSocketManager)) =
     (failed_round ^^ 6) (connect 1 7 new_WebSocketManager) \<and>
   0 < length (sockets (connect 1 7 new_WebSocketManager)) \<and>
   sock_readyState (sockets (connect 1 7 new_WebSocketManager) ! 0) = CONNECTING \<and>
   reconnectAttempts (transport_open 0 (connect 1 7 new_WebSocketManager)) = 0 \<and>
   timers ((failed_round ^^ 3) (connect 1 7 new_WebSocketManager)) = [(3000, 1, 7)] \<and>
   (5::nat) < 6 \<and>
   timers ((failed_round ^^ 6) (connect 1 7 new_WebSocketManager)) = [] \<and>
   transport_close 5 ((failed_round ^^ 6) (connect 1 7 new_WebSocketManager)) =
     (failed_round ^^ 6) (connect 1 7 new_WebSocketManager)"
proof -
  let ?c0 = "connect 1 7 new_WebSocketManager"
  let ?c6 = "(failed_round ^^ 6) ?c0"
  have h1: "reconnectAttempts ?c0 < maxReconnectAttempts ?c0"
    by (simp add: connect_def new_WebSocketManager_def)
  have h2: "\<not> reconnectAttempts ?c6 < maxReconnectAttempts ?c6"
    by (simp add: failed_rounds after_failures_def)
  have h3: "0 < length (sockets ?c0) \<and> sock_readyState (sockets ?c0 ! 0) = CONNECTING"
    by (simp add: connect_def new_WebSocketManager_def)
  have h4: "(5::nat) < 6" by simp
  from reconnect_schedule [of ?c0 1 7 0 3] h1
  have r1: "attemptReconnect 1 7 ?c0 =
      ?c0\<lparr> reconnectAttempts := reconnectAttempts ?c0 + 1,
           timers := timers ?c0 @ [(reconnectDelay ?c0 * (reconnectAttempts ?c0 + 1), 1, 7)] \<rparr>"
    and r3: "timers ((failed_round ^^ 3) ?c0) = [(3000, 1, 7)]"
    by simp_all
  from r1 have r1': "timers (attemptReconnect 1 7 ?c0) = [(1000, 1, 7)]"
    by (simp add: connect_def new_WebSocketManager_def)
  from reconnect_schedule [of ?c0 1 7 0 3] h3
  have r2: "reconnectAttempts (transport_open 0 ?c0) = 0" by blast
  from reconnect_schedule [of ?c6 1 7 0 6] h2 h4
  have r4: "attemptReconnect 1 7 ?c6 = ?c6" and r5: "timers ?c6 = []"
    and r6: "transport_close 5 ?c6 = ?c6"
    by simp_all
  show ?thesis using h1 h2 h3 r1' r2 r3 r4 r5 r6 by simp
qed

text \<open>
  Claim C7, on the code. \<^verbatim>\<open>disconnect\<close> clears \<^verbatim>\<open>this.ws\<close>, but the close event of
  the socket it closed still runs \<^verbatim>\<open>onclose\<close>, which schedules a reconnect after
  1000 ms; the timer opens a second socket and the join is sent again.
\<close>

theorem disconnect_is_followed_by_reconnect:
  "ws (client_run [Connect 1 7, TransportOpen 0, Disconnect] new_WebSocketManager) = None \<and>
   timers (client_run [Connect 1 7, TransportOpen 0, Disconnect, TransportClose 0]
             new_WebSocketManager) = [(1000, 1, 7)] \<and>
   ws (client_run [Connect 1 7, TransportOpen 0, Disconnect, TransportClose 0, Timeout 0]
         new_WebSocketManager) = Some 1 \<and>
   wire (client_run [Connect 1 7, TransportOpen 0, Disconnect, TransportClose 0, Timeout 0,
                     TransportOpen 1] new_WebSocketManager) =
     [(0, join_message 1 7), (1, join_message 1 7)]"
  by code_simp


lemma update_member: "(k, v) \<in> set (AList.update k v al)"
  by (induction al) auto

lemma upsert_listed:
  assumes "isActive ins = Some True"
  shows "fst (upsertPresence ins now uuid st) \<in>
           set (getPresenceByContract (contractId ins) (snd (upsertPresence ins now uuid st)))"
proof -
  let ?k = "presence_key (userId ins) (contractId ins)"
  let ?p = "fst (upsertPresence ins now uuid st)"
  have "presenceData (snd (upsertPresence ins now uuid st)) = AList.update ?k ?p (presenceData st)"
    by (simp add: upsertPresence_def Let_def)
  then have "(?k, ?p) \<in> set (presenceData (snd (upsertPresence ins now uuid st)))"
    by (simp add: update_member)
  then have "?p \<in> set (map snd (presenceData (snd (upsertPresence ins now uuid st))))"
    by force
  moreover have "contractId ?p = contractId ins" "isActive ?p = Some True"
    using assms by (simp_all add: upsertPresence_def Let_def)
  ultimately show ?thesis by (simp add: getPresenceByContract_def)
qed

lemma join_accepted_storage:
  assumes "u \<noteq> 0" "d \<noteq> 0"
  shows "storage (on_message w (Some (join_message u d)) now uuid later s) =
         snd (upsertPresence \<lparr> userId = u, contractId = d,
                position = Some \<lparr> line = 0, character = 0 \<rparr>, isActive = Some True \<rparr>
                now uuid (storage s))"
  using assms by (simp add: on_message_fields handler_defs join_message_def Let_def)

lemma reconnect_sends_join:
  assumes "reconnectAttempts c < maxReconnectAttempts c"
    and "i < length (sockets c)" and "sock_readyState (sockets c ! i) \<noteq> CLOSED"
    and "sock_userId (sockets c ! i) = u" and "sock_contractId (sockets c ! i) = d"
  shows "wire (transport_open (length (sockets c))
                 (timeout (length (timers c)) (transport_close i c))) =
         wire c @ [(length (sockets c), join_message u d)]"
    and "reconnectAttempts (transport_open (length (sockets c))
                 (timeout (length (timers c)) (transport_close i c))) = 0"
  using assms
  by (simp_all add: transport_close_def onclose_def attemptReconnect_def set_readyState_def
      timeout_def connect_def transport_open_def onopen_def send_def Let_def nth_append)

text \<open>
  Claim C5, as the code has it. When a socket of a manager within its attempt
  budget closes, the reconnect timer fires and the new socket opens, the manager
  sends one more message on the new socket: the join for the same user and
  contract with the fixed position line 0, character 0. Once the server has handled
  that join (identifiers nonzero), \<^verbatim>\<open>getPresenceByContract\<close> lists an active record
  of the user on the contract with that position, stamped with the time of the join.
\<close>

theorem rejoin_restores_presence:
  assumes "reconnectAttempts c < maxReconnectAttempts c"
    and "i < length (sockets c)" and "sock_readyState (sockets c ! i) \<noteq> CLOSED"
    and "sock_userId (sockets c ! i) = u" and "sock_contractId (sockets c ! i) = d"
    and "u \<noteq> 0" and "d \<noteq> 0"
  shows "wire (transport_open (length (sockets c))
                 (timeout (length (timers c)) (transport_close i c))) =
           wire c @ [(length (sockets c), join_message u d)] \<and>
         msg_position (join_message u d) = Some \<lparr> line = 0, character = 0 \<rparr> \<and>
         (\<exists>r \<in> set (getPresenceByContract d
                       (storage (on_message w (Some (join_message u d)) now uuid later s))).
            userId r = u \<and> contractId r = d \<and> isActive r = Some True \<and>
            position r = Some \<lparr> line = 0, character = 0 \<rparr> \<and> lastSeen r = now)"
proof -
  let ?ins = "\<lparr> userId = u, contractId = d,
                position = Some \<lparr> line = 0, character = 0 \<rparr>, isActive = Some True \<rparr>"
  let ?r = "fst (upsertPresence ?ins now uuid (storage s))"
  have "?r \<in> set (getPresenceByContract d (storage (on_message w (Some (join_message u d)) now uuid later s)))"
    using upsert_listed [of ?ins now uuid "storage s"] join_accepted_storage [OF assms(6,7)]
    by simp
  moreover have "userId ?r = u \<and> contractId ?r = d \<and> isActive ?r = Some True \<and>
            position ?r = Some \<lparr> line = 0, character = 0 \<rparr> \<and> lastSeen ?r = now"
    by (simp add: upsertPresence_def Let_def)
  ultimately have "\<exists>r \<in> set (getPresenceByContract d
                       (storage (on_message w (Some (join_message u d)) now uuid later s))).
            userId r = u \<and> contractId r = d \<and> isActive r = Some True \<and>
            position r = Some \<lparr> line = 0, character = 0 \<rparr> \<and> lastSeen r = now"
    by blast
  then show ?thesis
    using reconnect_sends_join(1) [OF assms(1-5)] by (simp add: join_message_def)
qed


text \<open>
  The client moved its cursor to line 2, character 5 before the drop, and the server
  keeps that position in the deactivated record; the join after the reconnect
  carries line 0, character 0, and that is the position listed afterwards.
\<close>

theorem rejoin_carries_origin_not_last_position:
  "wire (client_run reconnect_client_events new_WebSocketManager) =
     [(0, join_message 1 7),
      (0, cursor_move_message \<lparr> line = 2, character = 5 \<rparr>),
      (1, join_message 1 7)] \<and>
   msg_position (join_message 1 7) = Some \<lparr> line = 0, character = 0 \<rparr> \<and>
   map position (map snd (presenceData (storage (run before_rejoin_server_events (init example_store))))) =
     [Some \<lparr> line = 2, character = 5 \<rparr>] \<and>
   map position (getPresenceByContract 7
       (storage (on_message 1 (Some (join_message 1 7)) 30 ''c'' 31
          (run before_rejoin_server_events (init example_store))))) =
     [Some \<lparr> line = 0, character = 0 \<rparr>]"
  by code_simp

theorem rejoin_restores_presence_witness:
  "reconnectAttempts (client_run before_drop_client_events new_WebSocketManager) <
     maxReconnectAttempts (client_run before_drop_client_events new_WebSocketManager) \<and>
   0 < length (sockets (client_run before_drop_client_events new_WebSocketManager)) \<and>
   sock_readyState (sockets (client_run before_drop_client_events new_WebSocketManager) ! 0) \<noteq> CLOSED \<and>
   sock_userId (sockets (client_run before_drop_client_events new_WebSocketManager) ! 0) = 1 \<and>
   sock_contractId (sockets (client_run before_drop_client_events new_WebSocketManager) ! 0) = 7 \<and>
   wire (transport_open 1 (timeout 0 (transport_close 0
           (client_run before_drop_client_events new_WebSocketManager)))) =
     wire (client_run before_drop_client_events new_WebSocketManager) @ [(1, join_message 1 7)] \<and>
   (\<exists>r \<in> set (getPresenceByContract 7
               (storage (on_message 1 (Some (join_message 1 7)) 30 ''c'' 31
                  (run before_rejoin_server_events (init example_store))))).
      userId r = 1 \<and> contractId r = 7 \<and> isActive r = Some True \<and>
      position r = Some \<lparr> line = 0, character = 0 \<rparr> \<and> lastSeen r = 30)"
proof -
  let ?c = "client_run before_drop_client_events new_WebSocketManager"
  have h1: "reconnectAttempts ?c < maxReconnectAttempts ?c" by code_simp
  have h2: "0 < length (sockets ?c)" by code_simp
  have h3: "sock_readyState (sockets ?c ! 0) \<noteq> CLOSED" by code_simp
  have h4: "sock_userId (sockets ?c ! 0) = 1" by code_simp
  have h5: "sock_contractId (sockets ?c ! 0) = 7" by code_simp
  have h6: "(1::int) \<noteq> 0" and h7: "(7::int) \<noteq> 0" by simp_all
  have l: "length (sockets ?c) = 1" "length (timers ?c) = 0" by code_simp+
  show ?thesis
    using h1 h2 h3 h4 h5
      rejoin_restores_presence [OF h1 h2 h3 h4 h5 h6 h7, where w = 1 and now = 30
        and uuid = "''c''" and later = 31
        and s = "run before_rejoin_server_events (init example_store)"]
    by (simp add: l)
qed

end
